theory Spec2Isabelle
  imports Main "HOL-Library.Sublist"
begin

section \<open>Python values\<close>

text \<open>
  The program is \<^verbatim>\<open>src/process_video.py\<close>. Its data are Python values that
  travel through \<^verbatim>\<open>json.dump\<close> and \<^verbatim>\<open>json.load\<close>: the checkpoint dict and the
  list of transcript segments. They are modelled by one datatype of JSON values. A dict
  is an association list in insertion order (keys are strings, as JSON has them); lookup
  takes the first entry of a key and assignment replaces it in place, so an association
  list with distinct keys behaves as the dict does.

  Numbers are Python ints. Times that the speech recogniser reports as floats are outside
  the model: every statement about times below is a statement about integer seconds.

  A \<^typ>\<open>char\<close> stands for one character of a Python \<^verbatim>\<open>str\<close>, so the model covers
  the characters up to U+00FF.

  The exceptions are those that are instances of \<^verbatim>\<open>Exception\<close>. The asynchronous
  \<^verbatim>\<open>KeyboardInterrupt\<close> is not modelled.
\<close>

datatype exn =
  KeyError | TypeError | IndexError | FileNotFoundError | CalledProcessError
  | JSONDecodeError | OSError | OtherError

datatype json =
  JNull | JBool bool | JNum int | JStr string | JArr "json list" | JObj "(string \<times> json) list"

text \<open>Truth value of a value in a condition (\<^verbatim>\<open>if x:\<close>).\<close>

fun truthy :: "json \<Rightarrow> bool" where
  "truthy JNull = False"
| "truthy (JBool b) = b"
| "truthy (JNum n) = (n \<noteq> 0)"
| "truthy (JStr s) = (s \<noteq> [])"
| "truthy (JArr xs) = (xs \<noteq> [])"
| "truthy (JObj d) = (d \<noteq> [])"

text \<open>\<^verbatim>\<open>x[-1]\<close>: the last element of a list or string; a dict has no key \<^verbatim>\<open>-1\<close>.\<close>

fun py_last :: "json \<Rightarrow> exn + json" where
  "py_last (JArr xs) = (if xs = [] then Inl IndexError else Inr (last xs))"
| "py_last (JStr s) = (if s = [] then Inl IndexError else Inr (JStr [last s]))"
| "py_last (JObj d) = Inl KeyError"
| "py_last _ = Inl TypeError"

fun is_substring :: "string \<Rightarrow> string \<Rightarrow> bool" where
  "is_substring k [] = (k = [])"
| "is_substring k (c # cs) = (take (length k) (c # cs) = k \<or> is_substring k cs)"

text \<open>\<^verbatim>\<open>key in x\<close> for a string \<^verbatim>\<open>key\<close>: a key of a dict, a substring of a string, an
  element of a list; other values are not iterable.\<close>

fun py_contains :: "string \<Rightarrow> json \<Rightarrow> exn + bool" where
  "py_contains k (JObj d) = Inr (k \<in> set (map fst d))"
| "py_contains k (JStr s) = Inr (is_substring k s)"
| "py_contains k (JArr xs) = Inr (JStr k \<in> set xs)"
| "py_contains k _ = Inl TypeError"

text \<open>\<^verbatim>\<open>x[key]\<close> for a string \<^verbatim>\<open>key\<close>.\<close>

fun py_getitem :: "json \<Rightarrow> string \<Rightarrow> exn + json" where
  "py_getitem (JObj d) k = (case map_of d k of None \<Rightarrow> Inl KeyError | Some v \<Rightarrow> Inr v)"
| "py_getitem _ k = Inl TypeError"

text \<open>The operands of \<^verbatim>\<open>-\<close>, \<^verbatim>\<open>//\<close> and \<^verbatim>\<open>%\<close> must be numbers; \<^verbatim>\<open>bool\<close> is a
  subclass of \<^verbatim>\<open>int\<close>.\<close>

fun py_int :: "json \<Rightarrow> exn + int" where
  "py_int (JNum n) = Inr n"
| "py_int (JBool b) = Inr (if b then 1 else 0)"
| "py_int _ = Inl TypeError"

definition py_sub :: "json \<Rightarrow> json \<Rightarrow> exn + int" where
  "py_sub a b =
     (case py_int a of Inl e \<Rightarrow> Inl e | Inr x \<Rightarrow>
     (case py_int b of Inl e \<Rightarrow> Inl e | Inr y \<Rightarrow> Inr (x - y)))"

text \<open>Decimal rendering of integers: \<^verbatim>\<open>str(n)\<close> and the format \<^verbatim>\<open>{n:02d}\<close>.\<close>

definition digit_char :: "nat \<Rightarrow> char" where
  "digit_char n = ''0123456789'' ! n"

fun dec :: "nat \<Rightarrow> string" where
  "dec n = (if n < 10 then [digit_char n] else dec (n div 10) @ [digit_char (n mod 10)])"

declare dec.simps [simp del]

definition py_str_int :: "int \<Rightarrow> string" where
  "py_str_int i = (if i < 0 then CHR ''-'' # dec (nat (- i)) else dec (nat i))"

definition fmt_02d :: "int \<Rightarrow> string" where
  "fmt_02d i = (if 0 \<le> i \<and> i < 10 then CHR ''0'' # dec (nat i) else py_str_int i)"

text \<open>\<^verbatim>\<open>sep.join(items)\<close>: every item must be a string.\<close>

fun join_str :: "string \<Rightarrow> string list \<Rightarrow> string" where
  "join_str sep [] = []"
| "join_str sep [s] = s"
| "join_str sep (s # t # ss) = s @ sep @ join_str sep (t # ss)"

fun str_of :: "json \<Rightarrow> string option" where
  "str_of (JStr s) = Some s"
| "str_of _ = None"

definition py_join :: "string \<Rightarrow> json list \<Rightarrow> exn + string" where
  "py_join sep items =
     (if list_all (\<lambda>x. str_of x \<noteq> None) items
      then Inr (join_str sep (map (\<lambda>x. the (str_of x)) items))
      else Inl TypeError)"

section \<open>sanitize_filename\<close>

text \<open>Lines 47-58. The character class of the first substitution.\<close>

definition invalid_chars :: "string" where
  "invalid_chars =
     [CHR ''<'', CHR ''>'', CHR '':'', CHR 0x22, CHR ''/'', CHR 0x5C, CHR ''|'', CHR ''?'', CHR ''*'']"

text \<open>The class \<^verbatim>\<open>\s\<close> of a \<^verbatim>\<open>str\<close> pattern: tab to carriage return, the separators
  U+001C to U+001F, space, U+0085 and U+00A0.\<close>

definition is_space :: "char \<Rightarrow> bool" where
  "is_space c =
     (let n = (of_char c :: nat)
      in (9 \<le> n \<and> n \<le> 13) \<or> (28 \<le> n \<and> n \<le> 32) \<or> n = 133 \<or> n = 160)"

text \<open>\<^verbatim>\<open>re.sub(r'\s+', '_', s)\<close>: every maximal run of whitespace becomes one underscore.\<close>

function re_sub_spaces :: "string \<Rightarrow> string" where
  "re_sub_spaces [] = []"
| "re_sub_spaces (c # cs) =
     (if is_space c then CHR ''_'' # re_sub_spaces (dropWhile is_space cs)
      else c # re_sub_spaces cs)"
  by pat_completeness auto
termination
  by (relation "measure length") (auto simp: length_dropWhile_le less_Suc_eq_le)

text \<open>\<^verbatim>\<open>s.strip(chars)\<close>.\<close>

definition py_strip :: "(char \<Rightarrow> bool) \<Rightarrow> string \<Rightarrow> string" where
  "py_strip P s = rev (dropWhile P (rev (dropWhile P s)))"

definition sanitize_filename :: "string \<Rightarrow> string" where
  "sanitize_filename title =
     (let sanitized = filter (\<lambda>c. c \<notin> set invalid_chars) title;
          sanitized = re_sub_spaces sanitized;
          sanitized = py_strip (\<lambda>c. c \<in> set ''. '') sanitized
      in if length sanitized > 200 then take 200 sanitized else sanitized)"

section \<open>generate_summary\<close>

text \<open>Lines 262-338. \<^verbatim>\<open>int(x // n)\<close> and \<^verbatim>\<open>int(x % n)\<close> for a positive constant
  \<^verbatim>\<open>n\<close>: floor division and its remainder.\<close>

definition py_floordiv :: "json \<Rightarrow> int \<Rightarrow> exn + int" where
  "py_floordiv x n = (case py_int x of Inl e \<Rightarrow> Inl e | Inr v \<Rightarrow> Inr (v div n))"

definition py_mod :: "json \<Rightarrow> int \<Rightarrow> exn + int" where
  "py_mod x n = (case py_int x of Inl e \<Rightarrow> Inl e | Inr v \<Rightarrow> Inr (v mod n))"

definition highlight_interval :: int where
  "highlight_interval = 60"

text \<open>The two section headings carry a decorative symbol above U+00FF; it is kept as
  the bytes it has in the source file.\<close>

definition icon_highlights :: string where
  "icon_highlights = [CHR 0xC4, CHR 0x9F, CHR 0xC5, CHR 0xB8, CHR 0xC2, CHR 0xAF]"

definition icon_transcription :: string where
  "icon_transcription = [CHR 0xC4, CHR 0x9F, CHR 0xC5, CHR 0xB8, CHR 0xE2, CHR 0x80, CHR 0x9C]"

text \<open>The local variables of the grouping loop (lines 285-289).\<close>

record hl_state =
  current_time :: json
  highlight_count :: int
  current_highlight_text :: "json list"
  current_highlight_start :: json
  summary_lines :: "string list"

text \<open>The two lines appended for one highlight (lines 296-305 and 319-328): the
  heading with the time range and the label \<^verbatim>\<open>n\<close>, then the joined text.\<close>

definition highlight_lines :: "json \<Rightarrow> json \<Rightarrow> json list \<Rightarrow> int \<Rightarrow> exn + string list" where
  "highlight_lines hl_start hl_end texts n =
     (case py_floordiv hl_start 60 of Inl e \<Rightarrow> Inl e | Inr minutes_start \<Rightarrow>
     (case py_mod hl_start 60 of Inl e \<Rightarrow> Inl e | Inr seconds_start \<Rightarrow>
     (case py_floordiv hl_end 60 of Inl e \<Rightarrow> Inl e | Inr minutes_end \<Rightarrow>
     (case py_mod hl_end 60 of Inl e \<Rightarrow> Inl e | Inr seconds_end \<Rightarrow>
     (case py_join '' '' texts of Inl e \<Rightarrow> Inl e | Inr highlight_text \<Rightarrow>
        Inr [''### ['' @ fmt_02d minutes_start @ '':'' @ fmt_02d seconds_start @ '' - ''
               @ fmt_02d minutes_end @ '':'' @ fmt_02d seconds_end @ ''] Highlight ''
               @ py_str_int n @ ''\<newline>\<newline>'',
             highlight_text @ ''\<newline>\<newline>''])))))"

text \<open>Lines 295-306: the previous highlight is saved when there is one and this is not
  the first segment; it is labelled with the counter, which is incremented afterwards.\<close>

definition save_previous :: "nat \<Rightarrow> hl_state \<Rightarrow> exn + hl_state" where
  "save_previous i st =
     (if current_highlight_text st \<noteq> [] \<and> i > 0
      then (case highlight_lines (current_highlight_start st) (current_time st)
                   (current_highlight_text st) (highlight_count st) of
              Inl e \<Rightarrow> Inl e
            | Inr ls \<Rightarrow>
                Inr (st\<lparr>summary_lines := summary_lines st @ ls,
                        highlight_count := highlight_count st + 1\<rparr>))
      else Inr st)"

text \<open>The body of the loop of lines 291-315 for the segment of index \<^verbatim>\<open>i\<close>.\<close>

definition loop_body :: "nat \<Rightarrow> json \<Rightarrow> hl_state \<Rightarrow> exn + hl_state" where
  "loop_body i segment st =
     (case py_getitem segment ''start'' of Inl e \<Rightarrow> Inl e | Inr seg_start \<Rightarrow>
     (case py_sub seg_start (current_time st) of Inl e \<Rightarrow> Inl e | Inr gap \<Rightarrow>
        if gap > highlight_interval \<or> i = 0 then
          (case save_previous i st of Inl e \<Rightarrow> Inl e | Inr st1 \<Rightarrow>
          (case py_getitem segment ''text'' of Inl e \<Rightarrow> Inl e | Inr seg_text \<Rightarrow>
          (case py_getitem segment ''end'' of Inl e \<Rightarrow> Inl e | Inr seg_end \<Rightarrow>
             Inr (st1\<lparr>current_highlight_text := [seg_text],
                      current_highlight_start := seg_start,
                      current_time := seg_end\<rparr>))))
        else
          (case py_getitem segment ''text'' of Inl e \<Rightarrow> Inl e | Inr seg_text \<Rightarrow>
          (case py_getitem segment ''end'' of Inl e \<Rightarrow> Inl e | Inr seg_end \<Rightarrow>
             Inr (st\<lparr>current_highlight_text := current_highlight_text st @ [seg_text],
                     current_time := seg_end\<rparr>)))))"

text \<open>The loop over \<^verbatim>\<open>enumerate(segments)\<close>; \<^verbatim>\<open>i\<close> is the index of the segment at the
  head of the list.\<close>

fun highlight_loop :: "nat \<Rightarrow> json list \<Rightarrow> hl_state \<Rightarrow> exn + hl_state" where
  "highlight_loop i [] st = Inr st"
| "highlight_loop i (segment # rest) st =
     (case loop_body i segment st of
        Inl e \<Rightarrow> Inl e
      | Inr st' \<Rightarrow> highlight_loop (Suc i) rest st')"

text \<open>Lines 318-328: the last highlight. Its end is \<^verbatim>\<open>segments[-1]["end"]\<close> and its label
  is the counter plus one.\<close>

definition last_highlight :: "json \<Rightarrow> hl_state \<Rightarrow> exn + string list" where
  "last_highlight last_end st =
     (if current_highlight_text st \<noteq> []
      then (case highlight_lines (current_highlight_start st) last_end
                   (current_highlight_text st) (highlight_count st + 1) of
              Inl e \<Rightarrow> Inl e
            | Inr ls \<Rightarrow> Inr (summary_lines st @ ls))
      else Inr (summary_lines st))"

text \<open>The loop of lines 333-336. The text of a segment is formatted only after the join
  of its highlight has succeeded, which raises \<^verbatim>\<open>TypeError\<close> for a text that is not a
  string; so the case \<^verbatim>\<open>None\<close> is never reached from \<^verbatim>\<open>generate_summary\<close>.\<close>

definition transcript_line :: "json \<Rightarrow> exn + string" where
  "transcript_line segment =
     (case py_getitem segment ''start'' of Inl e \<Rightarrow> Inl e | Inr seg_start \<Rightarrow>
     (case py_floordiv seg_start 60 of Inl e \<Rightarrow> Inl e | Inr minutes \<Rightarrow>
     (case py_mod seg_start 60 of Inl e \<Rightarrow> Inl e | Inr seconds \<Rightarrow>
     (case py_getitem segment ''text'' of Inl e \<Rightarrow> Inl e | Inr seg_text \<Rightarrow>
     (case str_of seg_text of None \<Rightarrow> Inl TypeError | Some t \<Rightarrow>
        Inr (''**['' @ fmt_02d minutes @ '':'' @ fmt_02d seconds @ '']** '' @ t
               @ ''\<newline>\<newline>''))))))"

fun transcript_lines :: "json list \<Rightarrow> exn + string list" where
  "transcript_lines [] = Inr []"
| "transcript_lines (segment # rest) =
     (case transcript_line segment of
        Inl e \<Rightarrow> Inl e
      | Inr l \<Rightarrow> (case transcript_lines rest of Inl e \<Rightarrow> Inl e | Inr ls \<Rightarrow> Inr (l # ls)))"

text \<open>Lines 277-281: the lines before the highlights.\<close>

definition header_lines :: "string \<Rightarrow> int \<Rightarrow> int \<Rightarrow> int \<Rightarrow> nat \<Rightarrow> string list" where
  "header_lines title hours minutes seconds n =
     [''# Video Summary: '' @ title @ ''\<newline>\<newline>'',
      ''**Total Duration:** '' @ fmt_02d hours @ '':'' @ fmt_02d minutes @ '':''
        @ fmt_02d seconds @ ''\<newline>'',
      ''**Total Segments:** '' @ dec n @ ''\<newline>\<newline>'',
      ''## '' @ icon_highlights @ '' Key Highlights\<newline>\<newline>'']"

text \<open>Lines 331-332.\<close>

definition separator_lines :: "string list" where
  "separator_lines =
     [''---\<newline>\<newline>'',
      ''## '' @ icon_transcription @ '' Full Transcription\<newline>\<newline>'']"

text \<open>Lines 276-338, for a list of segments whose last element has the value
  \<^verbatim>\<open>total_duration\<close> under \<^verbatim>\<open>end\<close>.\<close>

definition render_report :: "json list \<Rightarrow> string \<Rightarrow> json \<Rightarrow> exn + string" where
  "render_report segs title total_duration =
     (case py_floordiv total_duration 3600 of Inl e \<Rightarrow> Inl e | Inr hours \<Rightarrow>
     (case py_mod total_duration 3600 of Inl e \<Rightarrow> Inl e | Inr rem_seconds \<Rightarrow>
     (case py_mod total_duration 60 of Inl e \<Rightarrow> Inl e | Inr seconds \<Rightarrow>
     (case highlight_loop 0 segs
             \<lparr>current_time = JNum 0, highlight_count = 0, current_highlight_text = [],
              current_highlight_start = JNum 0,
              summary_lines = header_lines title hours (rem_seconds div 60) seconds (length segs)\<rparr> of
        Inl e \<Rightarrow> Inl e
      | Inr st \<Rightarrow>
     (case last_highlight total_duration st of Inl e \<Rightarrow> Inl e | Inr lines1 \<Rightarrow>
     (case transcript_lines segs of Inl e \<Rightarrow> Inl e | Inr tlines \<Rightarrow>
        Inr (concat (lines1 @ separator_lines @ tlines))))))))"

text \<open>Lines 262-271. After the two guards the value is a list: a string has a last
  character that cannot contain \<^verbatim>\<open>end\<close>, and a dict has no key \<^verbatim>\<open>-1\<close>.\<close>

definition generate_summary :: "json \<Rightarrow> string \<Rightarrow> exn + string" where
  "generate_summary segments title =
     (if \<not> truthy segments
      then Inr (''# Video Summary: '' @ title @ ''\<newline>\<newline>No transcription available.'')
      else
     (case py_last segments of Inl e \<Rightarrow> Inl e | Inr last_segment \<Rightarrow>
     (case py_contains ''end'' last_segment of Inl e \<Rightarrow> Inl e | Inr has_end \<Rightarrow>
        if \<not> has_end
        then Inr (''# Video Summary: '' @ title @ ''\<newline>\<newline>Invalid transcription data.'')
        else
     (case py_getitem last_segment ''end'' of Inl e \<Rightarrow> Inl e | Inr total_duration \<Rightarrow>
     (case segments of
        JArr segs \<Rightarrow> render_report segs title total_duration
      | _ \<Rightarrow> Inl TypeError)))))"

section \<open>Files and external tools\<close>

text \<open>
  The file system is a map from paths to contents. A file either holds a JSON document,
  written by \<^verbatim>\<open>json.dump\<close> and read back by \<^verbatim>\<open>json.load\<close> as the same value, or other
  bytes (audio, the text of a summary, a damaged file), on which \<^verbatim>\<open>json.load\<close> raises.
  Directories are not part of the map and their creation is taken to succeed.

  The world also records the calls of the operations that act on the outside: the
  download, the audio tools, the speech recogniser and every file opened for writing.
\<close>

type_synonym path = string

type_synonym audio = "int list"

datatype fdata = JsonDoc json | Raw string

datatype call =
  Download string | PydubLoad path | PydubExport path | Ffmpeg path path | Copy2 path path
  | Transcribe path | WriteFile path

record world =
  files :: "path \<Rightarrow> fdata option"
  calls :: "call list"

text \<open>
  What the program does not decide itself: the module-level availability flags (lines
  21-44), whether a file can be opened for writing, and the results of the external
  tools. \<^verbatim>\<open>extract_info\<close> is the download of \<^verbatim>\<open>yt_dlp\<close>: it changes the files and
  returns the title, if the video has one, and the name \<^verbatim>\<open>prepare_filename\<close> gives.
  \<^verbatim>\<open>mp3_bytes\<close> is the encoder behind \<^verbatim>\<open>export\<close>. \<^verbatim>\<open>ffmpeg_run\<close> is the ffmpeg command
  of lines 161-172 on an input and an output path; it returns the bytes it has written
  to the output file. The two recognisers return their segments as (start, end, text).
  The download, the loading of audio, ffmpeg and the recognisers leave the files as they
  are when they fail.
\<close>

record env =
  PYDUB_AVAILABLE :: bool
  WHISPER_AVAILABLE :: bool
  WHISPER_TYPE :: "string option"
  can_write :: "path \<Rightarrow> bool"
  extract_info ::
    "string \<Rightarrow> path \<Rightarrow> (path \<Rightarrow> fdata option)
      \<Rightarrow> exn + ((path \<Rightarrow> fdata option) \<times> string option \<times> path)"
  from_mp3 :: "(path \<Rightarrow> fdata option) \<Rightarrow> path \<Rightarrow> exn + audio"
  from_wav :: "(path \<Rightarrow> fdata option) \<Rightarrow> path \<Rightarrow> exn + audio"
  split_on_silence :: "audio \<Rightarrow> int \<Rightarrow> int \<Rightarrow> int \<Rightarrow> audio list"
  mp3_bytes :: "audio \<Rightarrow> exn + string"
  ffmpeg_run ::
    "(path \<Rightarrow> fdata option) \<Rightarrow> path \<Rightarrow> path \<Rightarrow> int \<Rightarrow> int \<Rightarrow> exn + string"
  whisper_transcribe ::
    "(path \<Rightarrow> fdata option) \<Rightarrow> path \<Rightarrow> string \<Rightarrow> exn + (int \<times> int \<times> string) list"
  faster_transcribe ::
    "(path \<Rightarrow> fdata option) \<Rightarrow> path \<Rightarrow> string \<Rightarrow> exn + (int \<times> int \<times> string) list"

definition log_call :: "call \<Rightarrow> world \<Rightarrow> world" where
  "log_call c w = w\<lparr>calls := calls w @ [c]\<rparr>"

text \<open>\<^verbatim>\<open>os.path.exists\<close>, \<^verbatim>\<open>os.path.join\<close> of two parts and the root that
  \<^verbatim>\<open>os.path.splitext\<close> returns.\<close>

definition path_exists :: "world \<Rightarrow> path \<Rightarrow> bool" where
  "path_exists w p = (files w p \<noteq> None)"

definition path_join :: "path \<Rightarrow> path \<Rightarrow> path" where
  "path_join a b =
     (if b \<noteq> [] \<and> hd b = CHR ''/'' then b
      else if a = [] \<or> last a = CHR ''/'' then a @ b
      else a @ ''/'' @ b)"

fun rfind :: "char \<Rightarrow> string \<Rightarrow> nat option" where
  "rfind c [] = None"
| "rfind c (x # xs) =
     (case rfind c xs of
        Some i \<Rightarrow> Some (Suc i)
      | None \<Rightarrow> if x = c then Some 0 else None)"

definition splitext_root :: "path \<Rightarrow> path" where
  "splitext_root p =
     (case rfind (CHR ''.'') p of
        None \<Rightarrow> p
      | Some dotIndex \<Rightarrow>
          (let filenameIndex = (case rfind (CHR ''/'') p of None \<Rightarrow> 0 | Some sepIndex \<Rightarrow> sepIndex + 1)
           in if filenameIndex \<le> dotIndex
                 \<and> list_ex (\<lambda>c. c \<noteq> CHR ''.'') (take (dotIndex - filenameIndex) (drop filenameIndex p))
              then take dotIndex p else p))"

definition endswith :: "string \<Rightarrow> string \<Rightarrow> bool" where
  "endswith s sfx = (length sfx \<le> length s \<and> drop (length s - length sfx) s = sfx)"

text \<open>\<^verbatim>\<open>open(p, "w")\<close> followed by a write of the whole content, and
  \<^verbatim>\<open>open(p, "r")\<close> followed by \<^verbatim>\<open>json.load\<close>.\<close>

definition write_file :: "env \<Rightarrow> path \<Rightarrow> fdata \<Rightarrow> world \<Rightarrow> (exn + unit) \<times> world" where
  "write_file en p content w =
     (let w1 = log_call (WriteFile p) w
      in if can_write en p then (Inr (), w1\<lparr>files := (files w1)(p \<mapsto> content)\<rparr>)
         else (Inl OSError, w1))"

definition read_json :: "world \<Rightarrow> path \<Rightarrow> exn + json" where
  "read_json w p =
     (case files w p of
        None \<Rightarrow> Inl FileNotFoundError
      | Some (Raw s) \<Rightarrow> Inl JSONDecodeError
      | Some (JsonDoc j) \<Rightarrow> Inr j)"

text \<open>\<^verbatim>\<open>shutil.copy2\<close>.\<close>

definition copy2 :: "env \<Rightarrow> path \<Rightarrow> path \<Rightarrow> world \<Rightarrow> (exn + unit) \<times> world" where
  "copy2 en src dst w =
     (let w1 = log_call (Copy2 src dst) w
      in case files w src of
           None \<Rightarrow> (Inl FileNotFoundError, w1)
         | Some content \<Rightarrow>
             if src = dst then (Inl OSError, w1)
             else if can_write en dst then (Inr (), w1\<lparr>files := (files w1)(dst \<mapsto> content)\<rparr>)
             else (Inl OSError, w1))"

text \<open>Dicts: \<^verbatim>\<open>d[k] = v\<close> and \<^verbatim>\<open>d.get(k, default)\<close>.\<close>

fun dict_set :: "string \<Rightarrow> json \<Rightarrow> (string \<times> json) list \<Rightarrow> (string \<times> json) list" where
  "dict_set k v [] = [(k, v)]"
| "dict_set k v (p # ps) = (if fst p = k then (k, v) # ps else p # dict_set k v ps)"

definition dict_get :: "(string \<times> json) list \<Rightarrow> string \<Rightarrow> json \<Rightarrow> json" where
  "dict_get d k dflt = (case map_of d k of None \<Rightarrow> dflt | Some v \<Rightarrow> v)"

fun py_len :: "json \<Rightarrow> exn + nat" where
  "py_len (JArr xs) = Inr (length xs)"
| "py_len (JStr s) = Inr (length s)"
| "py_len (JObj d) = Inr (length d)"
| "py_len _ = Inl TypeError"

section \<open>download_video\<close>

text \<open>Lines 61-90.\<close>

definition download_video :: "env \<Rightarrow> string \<Rightarrow> path \<Rightarrow> world \<Rightarrow> (exn + path \<times> string) \<times> world" where
  "download_video en url output_dir w =
     (let w1 = log_call (Download url) w
      in case extract_info en url output_dir (files w) of
           Inl e \<Rightarrow> (Inl e, w1)
         | Inr (fs, info_title, filename) \<Rightarrow>
             (let title = (case info_title of None \<Rightarrow> ''video'' | Some t \<Rightarrow> t);
                  audio_file = splitext_root filename @ ''.mp3'';
                  w2 = w1\<lparr>files := fs\<rparr>
              in if \<not> path_exists w2 audio_file then (Inl FileNotFoundError, w2)
                 else (Inr (audio_file, title), w2)))"

section \<open>remove_silence\<close>

text \<open>\<^verbatim>\<open>audio.export(output_file, format="mp3", bitrate="32k")\<close>: pydub opens the
  output file for writing before it runs the encoder, so an encoder that fails leaves an
  empty output file behind.\<close>

definition export_mp3 :: "env \<Rightarrow> audio \<Rightarrow> path \<Rightarrow> world \<Rightarrow> (exn + unit) \<times> world" where
  "export_mp3 en a output_file w =
     (let w1 = log_call (PydubExport output_file) w
      in if \<not> can_write en output_file then (Inl OSError, w1)
         else
           (case mp3_bytes en a of
              Inl e \<Rightarrow> (Inl e, w1\<lparr>files := (files w1)(output_file \<mapsto> Raw [])\<rparr>)
            | Inr bytes \<Rightarrow> (Inr (), w1\<lparr>files := (files w1)(output_file \<mapsto> Raw bytes)\<rparr>)))"

text \<open>Lines 93-185. The branch on \<^verbatim>\<open>PYDUB_AVAILABLE\<close> has no handler; the ffmpeg branch
  handles \<^verbatim>\<open>CalledProcessError\<close> and \<^verbatim>\<open>FileNotFoundError\<close> by copying the input.\<close>

definition remove_silence ::
  "env \<Rightarrow> path \<Rightarrow> path \<Rightarrow> int \<Rightarrow> int \<Rightarrow> int \<Rightarrow> world \<Rightarrow> (exn + path) \<times> world" where
  "remove_silence en audio_file output_file min_silence_len silence_thresh keep_silence w =
     (if PYDUB_AVAILABLE en then
        (let w1 = log_call (PydubLoad audio_file) w
         in case (if endswith audio_file ''.mp3'' then from_mp3 en (files w) audio_file
                  else from_wav en (files w) audio_file) of
              Inl e \<Rightarrow> (Inl e, w1)
            | Inr a \<Rightarrow>
                (let chunks = split_on_silence en a min_silence_len silence_thresh keep_silence
                 in if chunks = [] then
                      (case export_mp3 en a output_file w1 of
                         (Inl e, w2) \<Rightarrow> (Inl e, w2)
                       | (Inr u, w2) \<Rightarrow> (Inr output_file, w2))
                    else
                      (let combined = foldl (@) [] chunks
                       in case export_mp3 en combined output_file w1 of
                            (Inl e, w2) \<Rightarrow> (Inl e, w2)
                          | (Inr u, w2) \<Rightarrow> (Inr output_file, w2))))
      else
        (let w1 = log_call (Ffmpeg audio_file output_file) w
         in case ffmpeg_run en (files w) audio_file output_file min_silence_len silence_thresh of
              Inr bytes \<Rightarrow> (Inr output_file, w1\<lparr>files := (files w1)(output_file \<mapsto> Raw bytes)\<rparr>)
            | Inl e \<Rightarrow>
                if e = CalledProcessError \<or> e = FileNotFoundError then
                  (case copy2 en audio_file output_file w1 of
                     (Inl e2, w2) \<Rightarrow> (Inl e2, w2)
                   | (Inr u, w2) \<Rightarrow> (Inr output_file, w2))
                else (Inl e, w1)))"

section \<open>transcribe_audio\<close>

text \<open>Lines 188-237. \<^verbatim>\<open>None\<close> is \<^term>\<open>JNull\<close>. Every exception inside the \<^verbatim>\<open>try\<close> is
  caught.\<close>

definition segment_dict :: "int \<times> int \<times> string \<Rightarrow> json" where
  "segment_dict seg =
     (case seg of (s, e, t) \<Rightarrow>
        JObj [(''start'', JNum s), (''end'', JNum e), (''text'', JStr (py_strip is_space t))])"

text \<open>The recogniser that the \<^verbatim>\<open>try\<close> runs: Faster Whisper when
  \<^verbatim>\<open>WHISPER_TYPE == "faster"\<close>, Whisper otherwise.\<close>

definition recognise ::
  "env \<Rightarrow> (path \<Rightarrow> fdata option) \<Rightarrow> path \<Rightarrow> string \<Rightarrow> exn + (int \<times> int \<times> string) list" where
  "recognise en fs audio_file model_name =
     (if WHISPER_TYPE en = Some ''faster''
      then faster_transcribe en fs audio_file model_name
      else whisper_transcribe en fs audio_file model_name)"

definition transcribe_audio :: "env \<Rightarrow> path \<Rightarrow> string \<Rightarrow> world \<Rightarrow> json \<times> world" where
  "transcribe_audio en audio_file model_name w =
     (if \<not> WHISPER_AVAILABLE en then (JNull, w)
      else
        (let w1 = log_call (Transcribe audio_file) w
         in case recognise en (files w) audio_file model_name of
              Inl e \<Rightarrow> (JNull, w1)
            | Inr segs \<Rightarrow> (JArr (map segment_dict segs), w1)))"

section \<open>The checkpoint store\<close>

text \<open>Lines 240-259.\<close>

definition checkpoint_path :: "path \<Rightarrow> path" where
  "checkpoint_path video_folder = path_join video_folder ''.checkpoint.json''"

definition load_checkpoint :: "world \<Rightarrow> path \<Rightarrow> json" where
  "load_checkpoint w video_folder =
     (let checkpoint_file = checkpoint_path video_folder
      in if path_exists w checkpoint_file
         then (case read_json w checkpoint_file of Inl e \<Rightarrow> JObj [] | Inr j \<Rightarrow> j)
         else JObj [])"

definition save_checkpoint :: "env \<Rightarrow> path \<Rightarrow> json \<Rightarrow> world \<Rightarrow> world" where
  "save_checkpoint en video_folder state w =
     (let checkpoint_file = checkpoint_path video_folder
      in case write_file en checkpoint_file (JsonDoc state) w of
           (Inl e, w1) \<Rightarrow> w1
         | (Inr u, w1) \<Rightarrow> w1)"

section \<open>main\<close>

text \<open>Lines 349-378: the folder of a video and the three artifacts in it.\<close>

definition video_folder_of :: "string \<Rightarrow> path" where
  "video_folder_of title = path_join ''videos'' (sanitize_filename title)"

definition processed_audio_of :: "string \<Rightarrow> path" where
  "processed_audio_of title =
     path_join (path_join (video_folder_of title) ''audio'')
       (sanitize_filename title @ ''_processed_audio.mp3'')"

definition transcription_file_of :: "string \<Rightarrow> path" where
  "transcription_file_of title =
     path_join (path_join (video_folder_of title) ''transcriptions'')
       (sanitize_filename title @ ''_transcription.json'')"

definition summary_file_of :: "string \<Rightarrow> path" where
  "summary_file_of title =
     path_join (path_join (video_folder_of title) ''summaries'')
       (sanitize_filename title @ ''_summary.md'')"

text \<open>Lines 382-385: the three entries set after the download.\<close>

definition mark_downloaded ::
  "string \<Rightarrow> string \<Rightarrow> (string \<times> json) list \<Rightarrow> (string \<times> json) list" where
  "mark_downloaded url title checkpoint =
     dict_set ''title'' (JStr title)
       (dict_set ''url'' (JStr url) (dict_set ''downloaded'' (JBool True) checkpoint))"

text \<open>Step 2, lines 388-396.\<close>

definition step2_remove_silence ::
  "env \<Rightarrow> path \<Rightarrow> string \<Rightarrow> (string \<times> json) list \<Rightarrow> world
    \<Rightarrow> (exn + (string \<times> json) list) \<times> world" where
  "step2_remove_silence en audio_file title checkpoint w =
     (if path_exists w (processed_audio_of title)
         \<and> truthy (dict_get checkpoint ''silence_removed'' (JBool False))
      then (Inr checkpoint, w)
      else
        (case remove_silence en audio_file (processed_audio_of title) 1000 (- 40) 200 w of
           (Inl e, w1) \<Rightarrow> (Inl e, w1)
         | (Inr p, w1) \<Rightarrow>
             (let checkpoint1 = dict_set ''silence_removed'' (JBool True) checkpoint
              in (Inr checkpoint1,
                  save_checkpoint en (video_folder_of title) (JObj checkpoint1) w1))))"

text \<open>Step 3, lines 398-412. The \<^verbatim>\<open>try\<close> of lines 402-405 reads the saved
  transcription and takes its length.\<close>

definition load_transcription :: "world \<Rightarrow> path \<Rightarrow> exn + json" where
  "load_transcription w transcription_file =
     (case read_json w transcription_file of
        Inl e \<Rightarrow> Inl e
      | Inr segments \<Rightarrow> (case py_len segments of Inl e \<Rightarrow> Inl e | Inr n \<Rightarrow> Inr segments))"

definition step3_transcribe ::
  "env \<Rightarrow> string \<Rightarrow> (string \<times> json) list \<Rightarrow> world \<Rightarrow> json \<times> world" where
  "step3_transcribe en title checkpoint w =
     (if path_exists w (transcription_file_of title)
         \<and> truthy (dict_get checkpoint ''transcribed'' (JBool False))
      then
        (case load_transcription w (transcription_file_of title) of
           Inr segments \<Rightarrow> (segments, w)
         | Inl e \<Rightarrow> transcribe_audio en (processed_audio_of title) ''base'' w)
      else transcribe_audio en (processed_audio_of title) ''base'' w)"

text \<open>Lines 414-436: the transcription is saved and the summary generated (step 4)
  only when \<^verbatim>\<open>segments\<close> is true.\<close>

definition step4_summary ::
  "env \<Rightarrow> string \<Rightarrow> json \<Rightarrow> (string \<times> json) list \<Rightarrow> world
    \<Rightarrow> (exn + (string \<times> json) list) \<times> world" where
  "step4_summary en title segments checkpoint w =
     (if truthy segments then
        (case write_file en (transcription_file_of title) (JsonDoc segments) w of
           (Inl e, w1) \<Rightarrow> (Inl e, w1)
         | (Inr u, w1) \<Rightarrow>
             (let checkpoint1 = dict_set ''transcribed'' (JBool True) checkpoint;
                  w2 = save_checkpoint en (video_folder_of title) (JObj checkpoint1) w1
              in if path_exists w2 (summary_file_of title)
                    \<and> truthy (dict_get checkpoint1 ''summary_generated'' (JBool False))
                 then (Inr checkpoint1, w2)
                 else
                   (case generate_summary segments title of
                      Inl e \<Rightarrow> (Inl e, w2)
                    | Inr summary \<Rightarrow>
                        (case write_file en (summary_file_of title) (Raw summary) w2 of
                           (Inl e, w3) \<Rightarrow> (Inl e, w3)
                         | (Inr u, w3) \<Rightarrow>
                             (let checkpoint2 =
                                    dict_set ''summary_generated'' (JBool True) checkpoint1
                              in (Inr checkpoint2,
                                  save_checkpoint en (video_folder_of title)
                                    (JObj checkpoint2) w3))))))
      else (Inr checkpoint, w))"

text \<open>Lines 374-440 after the download has returned. An assignment
  \<^verbatim>\<open>checkpoint['downloaded'] = True\<close> to a loaded value that is not a dict raises
  \<^verbatim>\<open>TypeError\<close>. The result is the checkpoint at the end of the run. The \<^verbatim>\<open>mkdir\<close>
  calls of lines 363 and 370-372 create directories, which are outside the file map;
  they come before the checkpoint is loaded.\<close>

definition after_download ::
  "env \<Rightarrow> string \<Rightarrow> path \<Rightarrow> string \<Rightarrow> world \<Rightarrow> (exn + (string \<times> json) list) \<times> world" where
  "after_download en url audio_file title w =
     (case load_checkpoint w (video_folder_of title) of
        JObj loaded \<Rightarrow>
          (let checkpoint = mark_downloaded url title loaded;
               w1 = save_checkpoint en (video_folder_of title) (JObj checkpoint) w
           in case step2_remove_silence en audio_file title checkpoint w1 of
                (Inl e, w2) \<Rightarrow> (Inl e, w2)
              | (Inr checkpoint2, w2) \<Rightarrow>
                  (case step3_transcribe en title checkpoint2 w2 of
                     (segments, w3) \<Rightarrow>
                       (case step4_summary en title segments checkpoint2 w3 of
                          (Inl e, w4) \<Rightarrow> (Inl e, w4)
                        | (Inr checkpoint4, w4) \<Rightarrow>
                            (let checkpoint5 = dict_set ''completed'' (JBool True) checkpoint4
                             in (Inr checkpoint5,
                                 save_checkpoint en (video_folder_of title)
                                   (JObj checkpoint5) w4)))))
      | _ \<Rightarrow> (Inl TypeError, w))"

text \<open>The body of the \<^verbatim>\<open>try\<close> of lines 354-448: step 1 is the call of
  \<^verbatim>\<open>download_video\<close>, made before anything is read from the checkpoint.\<close>

definition main_body :: "env \<Rightarrow> string \<Rightarrow> world \<Rightarrow> (exn + (string \<times> json) list) \<times> world" where
  "main_body en url w =
     (case download_video en url ''downloads'' w of
        (Inl e, w1) \<Rightarrow> (Inl e, w1)
      | (Inr (audio_file, title), w1) \<Rightarrow> after_download en url audio_file title w1)"

text \<open>Lines 341-459: the exit status. A run that reaches the end returns normally
  (status 0); an exception ends it with status 1.\<close>

definition main :: "env \<Rightarrow> string list \<Rightarrow> world \<Rightarrow> nat \<times> world" where
  "main en argv w =
     (if length argv < 2 then (1, w)
      else (case main_body en (argv ! 1) w of
              (Inl e, w1) \<Rightarrow> (1, w1)
            | (Inr checkpoint, w1) \<Rightarrow> (0, w1)))"

section \<open>The grouping rule as the specification words it\<close>

text \<open>
  A segment with integer times, and a highlight window: the start of its first segment,
  the end of the segment absorbed last, and the texts in order.

  The first segment always starts a window. A later segment whose start minus the end
  of the segment absorbed last exceeds the interval closes the window and opens a new
  one at this segment; any other segment is absorbed and extends the window's end.
  \<open>spec_scan\<close> returns the windows closed on the way and the window still open at the end
  of the list; the open window is always emitted after the closed ones.
\<close>

type_synonym segment = "int \<times> int \<times> string"

type_synonym window = "int \<times> int \<times> string list"

fun spec_scan :: "int \<Rightarrow> window \<Rightarrow> segment list \<Rightarrow> window list \<times> window" where
  "spec_scan iv cur [] = ([], cur)"
| "spec_scan iv (ws, we, ts) ((s, e, t) # rest) =
     (if s - we > iv
      then (case spec_scan iv (s, e, [t]) rest of
              (closed, still_open) \<Rightarrow> ((ws, we, ts) # closed, still_open))
      else spec_scan iv (ws, e, ts @ [t]) rest)"

definition spec_highlights :: "int \<Rightarrow> segment list \<Rightarrow> (int \<times> int \<times> string) list" where
  "spec_highlights iv segs =
     (case segs of
        [] \<Rightarrow> []
      | (s, e, t) # rest \<Rightarrow>
          (case spec_scan iv (s, e, [t]) rest of
             (closed, still_open) \<Rightarrow>
               map (\<lambda>(ws, we, ts). (ws, we, join_str '' '' ts)) (closed @ [still_open])))"

text \<open>A well-formed segment dict, read as a segment: numbers under \<^verbatim>\<open>start\<close> and
  \<^verbatim>\<open>end\<close>, a string under \<^verbatim>\<open>text\<close>.\<close>

fun seg_view :: "json \<Rightarrow> segment option" where
  "seg_view (JObj d) =
     (case (map_of d ''start'', map_of d ''end'', map_of d ''text'') of
        (Some (JNum s), Some (JNum e), Some (JStr t)) \<Rightarrow> Some (s, e, t)
      | _ \<Rightarrow> None)"
| "seg_view _ = None"

text \<open>The report on well-formed segments, written with the parts of the source: the
  section of one highlight, the line of one segment in the full transcription, and the
  labels that the source gives to \<open>n\<close> highlights in the order of emission (the counter
  for each window closed in the loop, the counter plus one for the last).\<close>

definition section_lines :: "int \<times> int \<times> string \<Rightarrow> int \<Rightarrow> string list" where
  "section_lines h n =
     (case h of (ws, we, txt) \<Rightarrow>
        [''### ['' @ fmt_02d (ws div 60) @ '':'' @ fmt_02d (ws mod 60) @ '' - ''
           @ fmt_02d (we div 60) @ '':'' @ fmt_02d (we mod 60) @ ''] Highlight ''
           @ py_str_int n @ ''\<newline>\<newline>'',
         txt @ ''\<newline>\<newline>''])"

definition transcript_entry :: "segment \<Rightarrow> string" where
  "transcript_entry seg =
     (case seg of (s, e, t) \<Rightarrow>
        ''**['' @ fmt_02d (s div 60) @ '':'' @ fmt_02d (s mod 60) @ '']** '' @ t
          @ ''\<newline>\<newline>'')"

definition emitted_labels :: "nat \<Rightarrow> int list" where
  "emitted_labels n = map int [0..<n - 1] @ [int n]"

definition report :: "string \<Rightarrow> segment list \<Rightarrow> (int \<times> int \<times> string) list \<Rightarrow> string" where
  "report title segs hs =
     (let total = fst (snd (last segs))
      in concat
           (header_lines title (total div 3600) (total mod 3600 div 60) (total mod 60)
              (length segs)
            @ concat (map (\<lambda>(h, n). section_lines h n) (zip hs (emitted_labels (length hs))))
            @ separator_lines
            @ map transcript_entry segs))"

text \<open>The sections of the windows closed in the loop, labelled from the counter \<open>c\<close> on.\<close>

fun closed_sections :: "int \<Rightarrow> window list \<Rightarrow> string list" where
  "closed_sections c [] = []"
| "closed_sections c ((ws, we, ts) # rest) =
     section_lines (ws, we, join_str '' '' ts) c @ closed_sections (c + 1) rest"

section \<open>Concrete runs\<close>

text \<open>An environment without pydub, ffmpeg or Whisper in which every write succeeds and
  the download of any address delivers \<^verbatim>\<open>downloads/T.mp3\<close> with the title \<^verbatim>\<open>T\<close>.\<close>

definition bare_env :: env where
  "bare_env =
     \<lparr>PYDUB_AVAILABLE = False, WHISPER_AVAILABLE = False, WHISPER_TYPE = None,
      can_write = (\<lambda>p. True),
      extract_info =
        (\<lambda>url dir fs. Inr (fs(''downloads/T.mp3'' \<mapsto> Raw ''mp3''), Some ''T'', ''downloads/T.webm'')),
      from_mp3 = (\<lambda>fs p. Inl FileNotFoundError),
      from_wav = (\<lambda>fs p. Inl FileNotFoundError),
      split_on_silence = (\<lambda>a m t k. []),
      mp3_bytes = (\<lambda>a. Inr []),
      ffmpeg_run = (\<lambda>fs p out m t. Inl FileNotFoundError),
      whisper_transcribe = (\<lambda>fs p m. Inl OtherError),
      faster_transcribe = (\<lambda>fs p m. Inl OtherError)\<rparr>"

definition empty_world :: world where
  "empty_world = \<lparr>files = (\<lambda>p. None), calls = []\<rparr>"

text \<open>The three segments of the specification's grouping example.\<close>

definition example_segments :: "json list" where
  "example_segments =
     [JObj [(''start'', JNum 0), (''end'', JNum 10), (''text'', JStr ''a'')],
      JObj [(''start'', JNum 15), (''end'', JNum 20), (''text'', JStr ''b'')],
      JObj [(''start'', JNum 90), (''end'', JNum 95), (''text'', JStr ''c'')]]"

text \<open>A source that an earlier run has finished: every flag of the checkpoint is set
  and every artifact is on disk.\<close>

definition finished_checkpoint :: "(string \<times> json) list" where
  "finished_checkpoint =
     [(''downloaded'', JBool True), (''url'', JStr ''https://example.org/v''),
      (''title'', JStr ''T''), (''silence_removed'', JBool True),
      (''transcribed'', JBool True), (''summary_generated'', JBool True),
      (''completed'', JBool True)]"

definition finished_world :: world where
  "finished_world =
     \<lparr>files = map_of
        [(''downloads/T.mp3'', Raw ''mp3''),
         (''videos/T/.checkpoint.json'', JsonDoc (JObj finished_checkpoint)),
         (''videos/T/audio/T_processed_audio.mp3'', Raw ''reduced''),
         (''videos/T/transcriptions/T_transcription.json'', JsonDoc (JArr example_segments)),
         (''videos/T/summaries/T_summary.md'', Raw ''summary'')],
      calls = []\<rparr>"

text \<open>The same environment with ffmpeg and Whisper installed, and with Faster Whisper
  installed but failing on every call.\<close>

definition tools_env :: env where
  "tools_env =
     bare_env\<lparr>WHISPER_AVAILABLE := True, WHISPER_TYPE := Some ''standard'',
              ffmpeg_run := (\<lambda>fs p out m t. Inr ''reduced''),
              whisper_transcribe := (\<lambda>fs p m. Inr [(0, 10, '' a''), (15, 20, ''b '')])\<rparr>"

definition deaf_env :: env where
  "deaf_env = bare_env\<lparr>WHISPER_AVAILABLE := True, WHISPER_TYPE := Some ''faster''\<rparr>"

text \<open>A source whose saved transcription is flagged and can be loaded, but holds a
  segment without the key \<^verbatim>\<open>start\<close>; no summary has been written yet.\<close>

definition malformed_world :: world where
  "malformed_world =
     \<lparr>files = map_of
        [(''downloads/T.mp3'', Raw ''mp3''),
         (''videos/T/.checkpoint.json'',
          JsonDoc (JObj [(''downloaded'', JBool True), (''url'', JStr ''https://example.org/v''),
                         (''title'', JStr ''T''), (''silence_removed'', JBool True),
                         (''transcribed'', JBool True)])),
         (''videos/T/audio/T_processed_audio.mp3'', Raw ''reduced''),
         (''videos/T/transcriptions/T_transcription.json'',
          JsonDoc (JArr [JObj [(''end'', JNum 5), (''text'', JStr ''a'')]]))],
      calls = []\<rparr>"

text \<open>The file system right after the download.\<close>

definition downloaded_world :: world where
  "downloaded_world = \<lparr>files = [''downloads/T.mp3'' \<mapsto> Raw ''mp3''], calls = []\<rparr>"

section \<open>Properties\<close>

subsection \<open>sanitize_filename: what holds for every title\<close>

lemma length_sanitize_filename: "length (sanitize_filename title) \<le> 200"
  by (simp add: sanitize_filename_def Let_def)

lemma set_re_sub_spaces:
  "set (re_sub_spaces s) \<subseteq> insert (CHR ''_'') {c \<in> set s. \<not> is_space c}"
proof (induction s rule: re_sub_spaces.induct)
  case 1
  then show ?case by simp
next
  case (2 c cs)
  show ?case
  proof (cases "is_space c")
    case True
    with 2 have "set (re_sub_spaces (dropWhile is_space cs))
        \<subseteq> insert (CHR ''_'') {c \<in> set (dropWhile is_space cs). \<not> is_space c}" by simp
    moreover have "set (dropWhile is_space cs) \<subseteq> set cs" by (auto dest: set_dropWhileD)
    ultimately show ?thesis using True by auto
  next
    case False
    with 2 show ?thesis by auto
  qed
qed

lemma set_py_strip: "set (py_strip P s) \<subseteq> set s"
  by (auto simp: py_strip_def dest!: set_dropWhileD)

lemma set_sanitize_filename:
  "set (sanitize_filename title)
     \<subseteq> insert (CHR ''_'') {c \<in> set title. c \<notin> set invalid_chars \<and> \<not> is_space c}"
proof -
  have "set (sanitize_filename title)
      \<subseteq> set (re_sub_spaces (filter (\<lambda>c. c \<notin> set invalid_chars) title))"
    using set_py_strip[of "\<lambda>c. c \<in> set ''. ''"]
    by (auto simp: sanitize_filename_def Let_def dest: in_set_takeD)
  also have "\<dots> \<subseteq> insert (CHR ''_'') {c \<in> set (filter (\<lambda>c. c \<notin> set invalid_chars) title). \<not> is_space c}"
    by (rule set_re_sub_spaces)
  finally show ?thesis by auto
qed

lemma sanitize_filename_no_invalid: "c \<in> set (sanitize_filename title) \<Longrightarrow> c \<notin> set invalid_chars"
  using set_sanitize_filename[of title] by (auto simp: invalid_chars_def)

lemma sanitize_filename_no_space: "c \<in> set (sanitize_filename title) \<Longrightarrow> \<not> is_space c"
  using set_sanitize_filename[of title] by (auto simp: is_space_def)

lemma last_dropWhile: "dropWhile P xs \<noteq> [] \<Longrightarrow> last (dropWhile P xs) = last xs"
  by (induction xs) (auto split: if_splits)

lemma hd_py_strip: "py_strip P s \<noteq> [] \<Longrightarrow> \<not> P (hd (py_strip P s))"
proof -
  assume ne: "py_strip P s \<noteq> []"
  let ?ys = "dropWhile P s"
  from ne have d: "dropWhile P (rev ?ys) \<noteq> []" by (simp add: py_strip_def)
  have ys: "?ys \<noteq> []"
  proof
    assume "?ys = []"
    with d show False by simp
  qed
  have "hd (py_strip P s) = last (dropWhile P (rev ?ys))"
    using d by (simp add: py_strip_def hd_rev)
  also have "\<dots> = last (rev ?ys)" using d by (rule last_dropWhile)
  also have "\<dots> = hd ?ys" using ys by (simp add: last_rev)
  finally show ?thesis using ys hd_dropWhile[of P s] by simp
qed

lemma last_py_strip: "py_strip P s \<noteq> [] \<Longrightarrow> \<not> P (last (py_strip P s))"
proof -
  assume ne: "py_strip P s \<noteq> []"
  then have d: "dropWhile P (rev (dropWhile P s)) \<noteq> []" by (simp add: py_strip_def)
  have "last (py_strip P s) = hd (dropWhile P (rev (dropWhile P s)))"
    using d by (simp add: py_strip_def last_rev)
  then show ?thesis using d hd_dropWhile[of P "rev (dropWhile P s)"] by simp
qed

lemma sanitize_filename_leading:
  "sanitize_filename title \<noteq> [] \<Longrightarrow> hd (sanitize_filename title) \<notin> set ''. ''"
  using hd_py_strip[of "\<lambda>c. c \<in> set ''. ''"]
  by (auto simp: sanitize_filename_def Let_def split: if_splits)

subsection \<open>generate_summary on well-formed segments\<close>

lemma seg_view_getitem:
  assumes "seg_view x = Some (s, e, t)"
  shows "py_getitem x ''start'' = Inr (JNum s)" and "py_getitem x ''end'' = Inr (JNum e)"
    and "py_getitem x ''text'' = Inr (JStr t)"
  using assms by (cases x; simp split: option.splits json.splits)+

lemma py_join_strs: "py_join sep (map JStr ts) = Inr (join_str sep ts)"
  by (simp add: py_join_def list_all_iff comp_def)

lemma highlight_lines_typed:
  "highlight_lines (JNum ws) (JNum we) (map JStr ts) n = Inr (section_lines (ws, we, join_str '' '' ts) n)"
  by (simp add: highlight_lines_def py_floordiv_def py_mod_def py_join_strs section_lines_def)

lemma loop_body_typed:
  assumes "seg_view x = Some (s, e, t)" and "0 < i" and "ts \<noteq> []"
  shows "loop_body i x \<lparr>current_time = JNum we, highlight_count = c,
            current_highlight_text = map JStr ts, current_highlight_start = JNum ws,
            summary_lines = L\<rparr> =
     (if s - we > highlight_interval
      then Inr \<lparr>current_time = JNum e, highlight_count = c + 1,
            current_highlight_text = map JStr [t], current_highlight_start = JNum s,
            summary_lines = L @ section_lines (ws, we, join_str '' '' ts) c\<rparr>
      else Inr \<lparr>current_time = JNum e, highlight_count = c,
            current_highlight_text = map JStr (ts @ [t]), current_highlight_start = JNum ws,
            summary_lines = L\<rparr>)"
  using assms
  by (simp add: loop_body_def seg_view_getitem py_sub_def save_previous_def highlight_lines_typed)

lemma highlight_loop_refines:
  assumes "map seg_view xs = map Some segs" and "0 < i" and "ts \<noteq> []"
  shows "highlight_loop i xs \<lparr>current_time = JNum we, highlight_count = c,
            current_highlight_text = map JStr ts, current_highlight_start = JNum ws,
            summary_lines = L\<rparr> =
     (case spec_scan highlight_interval (ws, we, ts) segs of
        (closed, (ws', we', ts')) \<Rightarrow>
          Inr \<lparr>current_time = JNum we', highlight_count = c + int (length closed),
               current_highlight_text = map JStr ts', current_highlight_start = JNum ws',
               summary_lines = L @ closed_sections c closed\<rparr>)"
  using assms
proof (induction segs arbitrary: xs i ts we c ws L)
  case Nil
  then show ?case by simp
next
  case (Cons seg segs)
  obtain s e t where seg: "seg = (s, e, t)" by (cases seg)
  from Cons.prems(1) obtain x xs' where xs: "xs = x # xs'"
    and x: "seg_view x = Some (s, e, t)" and rest: "map seg_view xs' = map Some segs"
    by (cases xs) (auto simp: seg)
  show ?case
  proof (cases "s - we > highlight_interval")
    case True
    have "highlight_loop (Suc i) xs' \<lparr>current_time = JNum e, highlight_count = c + 1,
            current_highlight_text = map JStr [t], current_highlight_start = JNum s,
            summary_lines = L @ section_lines (ws, we, join_str '' '' ts) c\<rparr> =
       (case spec_scan highlight_interval (s, e, [t]) segs of
        (closed, (ws', we', ts')) \<Rightarrow>
          Inr \<lparr>current_time = JNum we', highlight_count = c + 1 + int (length closed),
               current_highlight_text = map JStr ts', current_highlight_start = JNum ws',
               summary_lines = (L @ section_lines (ws, we, join_str '' '' ts) c) @ closed_sections (c + 1) closed\<rparr>)"
      by (rule Cons.IH[OF rest]) simp_all
    with True x Cons.prems(2,3) show ?thesis
      by (simp add: xs seg loop_body_typed split: prod.splits)
  next
    case False
    have "highlight_loop (Suc i) xs' \<lparr>current_time = JNum e, highlight_count = c,
            current_highlight_text = map JStr (ts @ [t]), current_highlight_start = JNum ws,
            summary_lines = L\<rparr> =
       (case spec_scan highlight_interval (ws, e, ts @ [t]) segs of
        (closed, (ws', we', ts')) \<Rightarrow>
          Inr \<lparr>current_time = JNum we', highlight_count = c + int (length closed),
               current_highlight_text = map JStr ts', current_highlight_start = JNum ws',
               summary_lines = L @ closed_sections c closed\<rparr>)"
      by (rule Cons.IH[OF rest]) simp_all
    with False x Cons.prems(2,3) show ?thesis
      by (simp add: xs seg loop_body_typed split: prod.splits)
  qed
qed

lemma spec_scan_open:
  assumes "spec_scan iv (ws, we, ts) segs = (closed, (ws', we', ts'))" and "ts \<noteq> []"
  shows "we' = (if segs = [] then we else fst (snd (last segs)))" and "ts' \<noteq> []"
  using assms
  by (induction iv "(ws, we, ts)" segs arbitrary: ws we ts closed rule: spec_scan.induct)
     (auto split: if_splits prod.splits)

lemma transcript_lines_typed:
  "map seg_view xs = map Some segs \<Longrightarrow> transcript_lines xs = Inr (map transcript_entry segs)"
proof (induction segs arbitrary: xs)
  case Nil
  then show ?case by simp
next
  case (Cons seg segs)
  obtain s e t where seg: "seg = (s, e, t)" by (cases seg)
  from Cons.prems obtain x xs' where xs: "xs = x # xs'"
    and x: "seg_view x = Some (s, e, t)" and rest: "map seg_view xs' = map Some segs"
    by (cases xs) (auto simp: seg)
  from Cons.IH[OF rest] x show ?case
    by (simp add: xs seg transcript_line_def seg_view_getitem py_floordiv_def py_mod_def transcript_entry_def)
qed

lemma closed_sections_zip:
  "closed_sections c closed =
     concat (map (\<lambda>(h, n). section_lines h n)
       (zip (map (\<lambda>(ws, we, ts). (ws, we, join_str '' '' ts)) closed) (map (\<lambda>k. c + int k) [0..<length closed])))"
proof (induction closed arbitrary: c)
  case Nil
  then show ?case by simp
next
  case (Cons w closed)
  obtain ws we ts where w: "w = (ws, we, ts)" by (cases w)
  have "map (\<lambda>k. c + int k) [0..<Suc (length closed)] = c # map (\<lambda>k. (c + 1) + int k) [0..<length closed]"
    by (simp add: upt_rec[of 0] map_Suc_upt[symmetric] del: upt_Suc)
  then show ?case by (simp add: w Cons.IH)
qed

lemma seg_view_has_end:
  assumes "seg_view x = Some (s, e, t)"
  shows "py_contains ''end'' x = Inr True"
proof -
  from assms obtain d where x: "x = JObj d" and m: "map_of d ''end'' = Some (JNum e)"
    by (cases x; simp split: option.splits json.splits)
  from m have "(''end'', JNum e) \<in> set d" by (rule map_of_SomeD)
  then have "''end'' \<in> fst ` set d" by force
  then show ?thesis by (simp add: x)
qed

lemma first_iteration:
  assumes "seg_view x = Some (s, e, t)"
  shows "loop_body 0 x \<lparr>current_time = JNum 0, highlight_count = 0,
            current_highlight_text = [], current_highlight_start = JNum 0,
            summary_lines = L\<rparr> =
     Inr \<lparr>current_time = JNum e, highlight_count = 0,
            current_highlight_text = map JStr [t], current_highlight_start = JNum s,
            summary_lines = L\<rparr>"
  using assms
  by (simp add: loop_body_def seg_view_getitem py_sub_def save_previous_def)

lemma labelled_sections:
  "concat (map (\<lambda>(h, n). section_lines h n)
      (zip (map (\<lambda>(ws, we, ts). (ws, we, join_str '' '' ts)) closed @ [h])
           (emitted_labels (Suc (length closed))))) =
   closed_sections 0 closed @ section_lines h (int (length closed) + 1)"
  by (simp add: emitted_labels_def closed_sections_zip[of 0] add.commute)

lemma generate_summary_refines:
  assumes ne: "segs \<noteq> []" and wf: "map seg_view xs = map Some segs"
  shows "generate_summary (JArr xs) title =
           Inr (report title segs (spec_highlights highlight_interval segs))"
proof -
  obtain s e t rest where segs: "segs = (s, e, t) # rest"
    using ne by (cases segs) auto
  from wf obtain x xs' where xs: "xs = x # xs'"
    and x: "seg_view x = Some (s, e, t)" and rest: "map seg_view xs' = map Some rest"
    by (cases xs) (auto simp: segs)
  obtain ls le lt where lst: "last segs = (ls, le, lt)" by (cases "last segs")
  have "xs \<noteq> []" by (simp add: xs)
  have "seg_view (last xs) = Some (last segs)"
  proof -
    have "map seg_view xs \<noteq> []" using \<open>xs \<noteq> []\<close> by simp
    then have "last (map seg_view xs) = seg_view (last xs)" using \<open>xs \<noteq> []\<close> by (simp add: last_map)
    moreover have "last (map Some segs) = Some (last segs)" using ne by (simp add: last_map)
    ultimately show ?thesis using wf by simp
  qed
  then have lx: "seg_view (last xs) = Some (ls, le, lt)" by (simp add: lst)
  obtain closed ws' we' ts' where scan:
    "spec_scan highlight_interval (s, e, [t]) rest = (closed, (ws', we', ts'))"
    by (cases "spec_scan highlight_interval (s, e, [t]) rest") auto
  from spec_scan_open[OF scan] have we': "we' = le" and ts': "ts' \<noteq> []"
    using lst by (auto simp: segs split: if_splits)
  have loop: "highlight_loop 0 xs \<lparr>current_time = JNum 0, highlight_count = 0,
            current_highlight_text = [], current_highlight_start = JNum 0,
            summary_lines = L\<rparr> =
      Inr \<lparr>current_time = JNum we', highlight_count = int (length closed),
               current_highlight_text = map JStr ts', current_highlight_start = JNum ws',
               summary_lines = L @ closed_sections 0 closed\<rparr>" for L
    using highlight_loop_refines[OF rest, of "Suc 0" "[t]" e 0 s L] scan
    by (simp add: xs first_iteration[OF x])
  have hs: "spec_highlights highlight_interval segs =
      map (\<lambda>(ws, we, ts). (ws, we, join_str '' '' ts)) (closed @ [(ws', we', ts')])"
    by (simp add: spec_highlights_def segs scan)
  have "render_report xs title (JNum le) =
      Inr (report title segs (spec_highlights highlight_interval segs))"
    using ts'
    by (simp add: hs report_def labelled_sections render_report_def py_floordiv_def py_mod_def
        loop last_highlight_def highlight_lines_typed transcript_lines_typed[OF wf] lst we'
        map_eq_imp_length_eq[OF wf, symmetric])
  then show ?thesis
    using \<open>xs \<noteq> []\<close>
    by (simp add: generate_summary_def seg_view_has_end[OF lx] seg_view_getitem[OF lx])
qed


subsection \<open>A text that reaches the full transcription is a string\<close>

text \<open>When the loop and the last highlight have succeeded, every text has passed a join,
  so the formatting of a segment's text in the full transcription only meets strings.\<close>

lemma py_join_strings:
  "py_join sep items = Inr r \<Longrightarrow> list_all (\<lambda>v. str_of v \<noteq> None) items"
  by (simp add: py_join_def split: if_splits)

lemma highlight_lines_strings:
  "highlight_lines a b items n = Inr ls \<Longrightarrow> list_all (\<lambda>v. str_of v \<noteq> None) items"
  by (auto simp: highlight_lines_def dest: py_join_strings split: sum.splits)

lemma loop_body_strings:
  assumes "loop_body i x st = Inr st1"
    and "list_all (\<lambda>v. str_of v \<noteq> None) (current_highlight_text st1)"
    and "0 < i \<or> current_highlight_text st = []"
  shows "list_all (\<lambda>v. str_of v \<noteq> None) (current_highlight_text st)"
    and "py_getitem x ''text'' = Inr v \<Longrightarrow> str_of v \<noteq> None"
  using assms
  by (auto simp: loop_body_def save_previous_def dest: highlight_lines_strings
      split: sum.splits if_splits)

lemma highlight_loop_strings:
  assumes "highlight_loop i xs st = Inr st'"
    and "list_all (\<lambda>v. str_of v \<noteq> None) (current_highlight_text st')"
    and "0 < i \<or> current_highlight_text st = []"
  shows "list_all (\<lambda>v. str_of v \<noteq> None) (current_highlight_text st)
         \<and> (\<forall>x\<in>set xs. \<forall>v. py_getitem x ''text'' = Inr v \<longrightarrow> str_of v \<noteq> None)"
  using assms
proof (induction xs arbitrary: i st)
  case Nil
  then show ?case by simp
next
  case (Cons x xs)
  from Cons.prems(1) obtain st1 where b: "loop_body i x st = Inr st1"
    and l: "highlight_loop (Suc i) xs st1 = Inr st'"
    by (auto split: sum.splits)
  from Cons.IH[OF l Cons.prems(2)] have
    s1: "list_all (\<lambda>v. str_of v \<noteq> None) (current_highlight_text st1)"
    and r: "\<forall>x\<in>set xs. \<forall>v. py_getitem x ''text'' = Inr v \<longrightarrow> str_of v \<noteq> None"
    by simp_all
  from loop_body_strings[OF b s1 Cons.prems(3)] r show ?case by auto
qed

lemma transcript_text_is_string:
  assumes "highlight_loop 0 segs
             \<lparr>current_time = t0, highlight_count = c0, current_highlight_text = [],
              current_highlight_start = s0, summary_lines = l0\<rparr> = Inr st"
    and "last_highlight last_end st = Inr ls"
    and "x \<in> set segs" and "py_getitem x ''text'' = Inr v"
  shows "str_of v \<noteq> None"
proof -
  from assms(2) have "list_all (\<lambda>v. str_of v \<noteq> None) (current_highlight_text st)"
    by (auto simp: last_highlight_def dest: highlight_lines_strings split: if_splits sum.splits)
  from highlight_loop_strings[OF assms(1) this] assms(3,4) show ?thesis by auto
qed

subsection \<open>Files, checkpoints and the steps of main\<close>

lemma map_of_dict_set: "map_of (dict_set k v d) k' = (if k' = k then Some v else map_of d k')"
  by (induction d) auto

lemma last_path_join: "b \<noteq> [] \<Longrightarrow> last (path_join a b) = last b"
  by (simp add: path_join_def)

lemma summary_file_not_checkpoint: "summary_file_of title \<noteq> checkpoint_path folder"
proof
  assume "summary_file_of title = checkpoint_path folder"
  then have "last (summary_file_of title) = last (checkpoint_path folder)" by simp
  then show False
    by (simp add: summary_file_of_def checkpoint_path_def last_path_join)
qed

lemma summary_file_not_transcription: "summary_file_of title \<noteq> transcription_file_of title'"
proof
  assume "summary_file_of title = transcription_file_of title'"
  then have "last (summary_file_of title) = last (transcription_file_of title')" by simp
  then show False
    by (simp add: summary_file_of_def transcription_file_of_def last_path_join)
qed

lemmas path_defs =
  video_folder_of_def processed_audio_of_def transcription_file_of_def summary_file_of_def
  checkpoint_path_def path_join_def sanitize_filename_def invalid_chars_def is_space_def
  py_strip_def

lemma paths_T:
  "video_folder_of ''T'' = ''videos/T''"
  "processed_audio_of ''T'' = ''videos/T/audio/T_processed_audio.mp3''"
  "transcription_file_of ''T'' = ''videos/T/transcriptions/T_transcription.json''"
  "summary_file_of ''T'' = ''videos/T/summaries/T_summary.md''"
  "checkpoint_path ''videos/T'' = ''videos/T/.checkpoint.json''"
  by (simp_all add: path_defs)

lemmas run_defs =
  main_def main_body_def download_video_def splitext_root_def path_exists_def
  after_download_def load_checkpoint_def save_checkpoint_def write_file_def read_json_def
  mark_downloaded_def step2_remove_silence_def step3_transcribe_def step4_summary_def
  load_transcription_def remove_silence_def copy2_def transcribe_audio_def recognise_def
  log_call_def dict_get_def endswith_def Let_def

subsection \<open>The checkpoint store and the steps of main\<close>

lemma calls_save_checkpoint:
  "calls (save_checkpoint en folder c w) = calls w @ [WriteFile (checkpoint_path folder)]"
  by (simp add: save_checkpoint_def write_file_def log_call_def Let_def)

lemma files_save_checkpoint:
  "files (save_checkpoint en folder c w) =
     (if can_write en (checkpoint_path folder)
      then (files w)(checkpoint_path folder \<mapsto> JsonDoc c) else files w)"
  by (simp add: save_checkpoint_def write_file_def log_call_def Let_def)

lemma transcribe_audio_fails:
  assumes "\<not> WHISPER_AVAILABLE en \<or> isl (recognise en (files w) audio_file model_name)"
  shows "transcribe_audio en audio_file model_name w =
           (JNull, if WHISPER_AVAILABLE en then log_call (Transcribe audio_file) w else w)"
  using assms by (auto simp: transcribe_audio_def Let_def split: sum.splits)

lemma step3_calls_transcribe_audio:
  assumes "\<not> path_exists w (transcription_file_of title)
           \<or> \<not> truthy (dict_get checkpoint ''transcribed'' (JBool False))
           \<or> isl (load_transcription w (transcription_file_of title))"
  shows "step3_transcribe en title checkpoint w =
           transcribe_audio en (processed_audio_of title) ''base'' w"
  using assms by (auto simp: step3_transcribe_def split: sum.splits)

lemma step2_keeps_entries:
  assumes "step2_remove_silence en audio_file title checkpoint w = (Inr checkpoint2, w2)"
    and "k \<noteq> ''silence_removed''"
  shows "map_of checkpoint2 k = map_of checkpoint k"
  using assms
  by (auto simp: step2_remove_silence_def Let_def map_of_dict_set split: if_splits prod.splits sum.splits)

lemma mark_downloaded_transcribed:
  "map_of (mark_downloaded url title d) ''transcribed'' = map_of d ''transcribed''"
  by (simp add: mark_downloaded_def map_of_dict_set)

text \<open>Resumption of steps 2, 3 and 4: a step whose artifact is on disk and whose flag is
  set calls none of its tools.\<close>

lemma step2_skips:
  assumes "path_exists w (processed_audio_of title)"
    and "truthy (dict_get checkpoint ''silence_removed'' (JBool False))"
  shows "step2_remove_silence en audio_file title checkpoint w = (Inr checkpoint, w)"
  using assms by (simp add: step2_remove_silence_def)

lemma step3_skips:
  assumes "path_exists w (transcription_file_of title)"
    and "truthy (dict_get checkpoint ''transcribed'' (JBool False))"
    and "load_transcription w (transcription_file_of title) = Inr segments"
  shows "step3_transcribe en title checkpoint w = (segments, w)"
  using assms by (simp add: step3_transcribe_def)

lemma step4_skips:
  assumes "truthy segments"
    and "path_exists w (summary_file_of title)"
    and "truthy (dict_get checkpoint ''summary_generated'' (JBool False))"
    and "can_write en (transcription_file_of title)"
  shows "step4_summary en title segments checkpoint w =
           (Inr (dict_set ''transcribed'' (JBool True) checkpoint),
            save_checkpoint en (video_folder_of title)
              (JObj (dict_set ''transcribed'' (JBool True) checkpoint))
              (snd (write_file en (transcription_file_of title) (JsonDoc segments) w)))"
  using assms
  by (auto simp: step4_summary_def write_file_def Let_def path_exists_def files_save_checkpoint
      log_call_def summary_file_not_checkpoint summary_file_not_transcription dict_get_def
      map_of_dict_set)

lemma step2_sets_flag:
  assumes "remove_silence en audio_file (processed_audio_of title) 1000 (- 40) 200 w = (Inr p, w1)"
    and "\<not> (path_exists w (processed_audio_of title)
            \<and> truthy (dict_get checkpoint ''silence_removed'' (JBool False)))"
  shows "step2_remove_silence en audio_file title checkpoint w =
           (Inr (dict_set ''silence_removed'' (JBool True) checkpoint),
            save_checkpoint en (video_folder_of title)
              (JObj (dict_set ''silence_removed'' (JBool True) checkpoint)) w1)"
  using assms by (auto simp: step2_remove_silence_def Let_def)

subsection \<open>Every run starts with the download\<close>

lemma prefix_write_file: "prefix (calls w) (calls (snd (write_file en p c w)))"
  by (simp add: write_file_def log_call_def Let_def)

lemma prefix_save_checkpoint: "prefix (calls w) (calls (save_checkpoint en folder c w))"
  by (simp add: calls_save_checkpoint)

lemma prefix_remove_silence:
  "prefix (calls w) (calls (snd (remove_silence en a out m t k w)))"
  by (auto simp: remove_silence_def export_mp3_def copy2_def log_call_def Let_def
      split: sum.splits prod.splits option.splits if_splits)

lemma prefix_transcribe_audio: "prefix (calls w) (calls (snd (transcribe_audio en a mn w)))"
  by (auto simp: transcribe_audio_def log_call_def Let_def split: sum.splits)

lemma prefix_step2: "prefix (calls w) (calls (snd (step2_remove_silence en a title cp w)))"
proof (cases "remove_silence en a (processed_audio_of title) 1000 (- 40) 200 w")
  case (Pair r w1)
  then have "prefix (calls w) (calls w1)"
    using prefix_remove_silence[of w en a "processed_audio_of title" 1000 "- 40" 200] by simp
  with Pair show ?thesis
    by (cases r) (auto simp: step2_remove_silence_def Let_def calls_save_checkpoint
        intro: prefix_order.trans)
qed

lemma prefix_step3: "prefix (calls w) (calls (snd (step3_transcribe en title cp w)))"
  by (auto simp: step3_transcribe_def prefix_transcribe_audio split: sum.splits)

lemma prefix_step4: "prefix (calls w) (calls (snd (step4_summary en title segments cp w)))"
proof (cases "truthy segments")
  case False
  then show ?thesis by (simp add: step4_summary_def)
next
  case True
  obtain r w1 where wf: "write_file en (transcription_file_of title) (JsonDoc segments) w = (r, w1)"
    by (cases "write_file en (transcription_file_of title) (JsonDoc segments) w")
  then have e1: "prefix (calls w) (calls w1)"
    using prefix_write_file[of w en "transcription_file_of title" "JsonDoc segments"] by simp
  let ?cp1 = "dict_set ''transcribed'' (JBool True) cp"
  let ?w2 = "save_checkpoint en (video_folder_of title) (JObj ?cp1) w1"
  have e2: "prefix (calls w) (calls ?w2)"
    using e1 prefix_save_checkpoint by (rule prefix_order.trans)
  have e3: "prefix (calls w) (calls (snd (write_file en (summary_file_of title) c ?w2)))" for c
    using e2 prefix_write_file by (rule prefix_order.trans)
  show ?thesis
  proof (cases r)
    case (Inl e)
    with True wf e1 show ?thesis by (simp add: step4_summary_def)
  next
    case (Inr u)
    show ?thesis
    proof (cases "path_exists ?w2 (summary_file_of title)
        \<and> truthy (dict_get ?cp1 ''summary_generated'' (JBool False))")
      case True
      with \<open>truthy segments\<close> wf Inr e2 show ?thesis by (simp add: step4_summary_def Let_def)
    next
      case False
      show ?thesis
      proof (cases "generate_summary segments title")
        case (Inl e)
        with False \<open>truthy segments\<close> wf Inr e2 show ?thesis
          by (auto simp: step4_summary_def Let_def)
      next
        case summary: (Inr summary)
        obtain r5 w5 where w5: "write_file en (summary_file_of title) (Raw summary) ?w2 = (r5, w5)"
          by (cases "write_file en (summary_file_of title) (Raw summary) ?w2")
        with e3[of "Raw summary"] have e5: "prefix (calls w) (calls w5)" by simp
        then have e6: "prefix (calls w) (calls (save_checkpoint en f c w5))" for f c
          using prefix_save_checkpoint by (rule prefix_order.trans)
        from False \<open>truthy segments\<close> wf Inr summary w5 e5 e6 show ?thesis
          by (cases r5) (auto simp: step4_summary_def Let_def)
      qed
    qed
  qed
qed

lemma prefix_after_download:
  "prefix (calls w) (calls (snd (after_download en url a title w)))"
proof (cases "load_checkpoint w (video_folder_of title)")
  case (JObj loaded)
  let ?cp = "mark_downloaded url title loaded"
  let ?w1 = "save_checkpoint en (video_folder_of title) (JObj ?cp) w"
  have e1: "prefix (calls w) (calls ?w1)" by (rule prefix_save_checkpoint)
  obtain r2 w2 where s2: "step2_remove_silence en a title ?cp ?w1 = (r2, w2)"
    by (cases "step2_remove_silence en a title ?cp ?w1")
  then have e2: "prefix (calls w) (calls w2)" using prefix_step2[of ?w1 en a title ?cp] e1
    by (auto intro: prefix_order.trans)
  show ?thesis
  proof (cases r2)
    case (Inl e)
    with JObj s2 e2 show ?thesis by (simp add: after_download_def Let_def)
  next
    case (Inr cp2)
    obtain segs w3 where s3: "step3_transcribe en title cp2 w2 = (segs, w3)"
      by (cases "step3_transcribe en title cp2 w2")
    then have e3: "prefix (calls w) (calls w3)" using prefix_step3[of w2 en title cp2] e2
      by (auto intro: prefix_order.trans)
    obtain r4 w4 where s4: "step4_summary en title segs cp2 w3 = (r4, w4)"
      by (cases "step4_summary en title segs cp2 w3")
    then have e4: "prefix (calls w) (calls w4)" using prefix_step4[of w3 en title segs cp2] e3
      by (auto intro: prefix_order.trans)
    then have e5: "prefix (calls w) (calls (save_checkpoint en f c w4))" for f c
      using prefix_save_checkpoint by (rule prefix_order.trans)
    from JObj s2 Inr s3 s4 e4 e5 show ?thesis
      by (cases r4) (simp_all add: after_download_def Let_def)
  qed
qed (simp_all add: after_download_def)

lemma download_logged:
  "\<exists>r w1. download_video en url dir w = (r, w1) \<and> calls w1 = calls w @ [Download url]"
  by (auto simp: download_video_def log_call_def Let_def split: sum.splits prod.splits)

lemma main_body_always_downloads:
  "prefix (calls w @ [Download url]) (calls (snd (main_body en url w)))"
proof -
  obtain r w1 where d: "download_video en url ''downloads'' w = (r, w1)"
    and c: "calls w1 = calls w @ [Download url]"
    using download_logged[of en url "''downloads''" w] by auto
  show ?thesis
  proof (cases r)
    case (Inl e)
    with d c show ?thesis by (simp add: main_body_def)
  next
    case (Inr at)
    obtain a title where at: "at = (a, title)" by (cases at)
    from prefix_after_download[of w1 en url a title] d c Inr at show ?thesis
      by (simp add: main_body_def)
  qed
qed

subsection \<open>remove_silence and the guard of generate_summary\<close>

text \<open>Without pydub: ffmpeg, and the copy of the input when ffmpeg fails with a process
  error or is missing.\<close>

lemma remove_silence_ffmpeg:
  assumes "\<not> PYDUB_AVAILABLE en"
    and "ffmpeg_run en (files w) audio_file output_file msl thr = Inr bytes"
  shows "remove_silence en audio_file output_file msl thr ks w =
           (Inr output_file,
            w\<lparr>files := (files w)(output_file \<mapsto> Raw bytes),
               calls := calls w @ [Ffmpeg audio_file output_file]\<rparr>)"
  using assms by (simp add: remove_silence_def log_call_def)

lemma remove_silence_copies:
  assumes "\<not> PYDUB_AVAILABLE en"
    and "ffmpeg_run en (files w) audio_file output_file msl thr = Inl e"
    and "e = CalledProcessError \<or> e = FileNotFoundError"
    and "files w audio_file = Some content" and "audio_file \<noteq> output_file"
    and "can_write en output_file"
  shows "remove_silence en audio_file output_file msl thr ks w =
           (Inr output_file,
            w\<lparr>files := (files w)(output_file \<mapsto> content),
               calls := calls w @ [Ffmpeg audio_file output_file, Copy2 audio_file output_file]\<rparr>)"
  using assms by (auto simp: remove_silence_def copy2_def log_call_def)

text \<open>With pydub, when the load and the export succeed.\<close>

lemma remove_silence_pydub:
  assumes "PYDUB_AVAILABLE en"
    and "(if endswith audio_file ''.mp3'' then from_mp3 en (files w) audio_file
          else from_wav en (files w) audio_file) = Inr a"
    and "chunks = split_on_silence en a msl thr ks"
    and "mp3_bytes en (if chunks = [] then a else foldl (@) [] chunks) = Inr bytes"
    and "can_write en output_file"
  shows "remove_silence en audio_file output_file msl thr ks w =
           (Inr output_file,
            w\<lparr>files := (files w)(output_file \<mapsto> Raw bytes),
               calls := calls w @ [PydubLoad audio_file, PydubExport output_file]\<rparr>)"
  using assms by (auto simp: remove_silence_def export_mp3_def log_call_def Let_def)

text \<open>The copy of the last tier has no handler either: with ffmpeg missing and an
  output that cannot be written, its error leaves \<^verbatim>\<open>remove_silence\<close>.\<close>

lemma remove_silence_copy_raises:
  "fst (remove_silence (bare_env\<lparr>can_write := (\<lambda>p. False)\<rparr>) ''downloads/T.mp3''
          (processed_audio_of ''T'') 1000 (- 40) 200 downloaded_world) = Inl OSError"
  by (simp add: remove_silence_def copy2_def log_call_def bare_env_def downloaded_world_def
      paths_T)

text \<open>The one guard of \<^verbatim>\<open>generate_summary\<close> against malformed segments (lines 268-269).\<close>

lemma generate_summary_guard:
  assumes "xs \<noteq> []" and "py_contains ''end'' (last xs) = Inr False"
  shows "generate_summary (JArr xs) title =
           Inr (''# Video Summary: '' @ title @ ''\<newline>\<newline>Invalid transcription data.'')"
  using assms by (simp add: generate_summary_def)

subsection \<open>The claims\<close>

text \<open>C1. The claim is that each of the four stages, the download included, is skipped
  when its artifact is on disk and its flag is set. Steps 2, 3 and 4 do so (lemmas
  \<open>step2_skips\<close>, \<open>step3_skips\<close>, \<open>step4_skips\<close>). The download does not: it is called
  before the checkpoint is read, in every run (lemma \<open>main_body_always_downloads\<close>).
  On a source that an earlier run has finished, with every tool installed, the run
  downloads again; the audio tools and the recogniser are not called.\<close>

theorem rerun_downloads_again:
  "path_exists finished_world ''downloads/T.mp3''
   \<and> load_checkpoint finished_world (video_folder_of ''T'') = JObj finished_checkpoint
   \<and> dict_get finished_checkpoint ''downloaded'' (JBool False) = JBool True
   \<and> fst (main tools_env [''process_video.py'', ''https://example.org/v''] finished_world) = 0
   \<and> calls (snd (main tools_env [''process_video.py'', ''https://example.org/v''] finished_world)) =
       [Download ''https://example.org/v'',
        WriteFile ''videos/T/.checkpoint.json'',
        WriteFile ''videos/T/transcriptions/T_transcription.json'',
        WriteFile ''videos/T/.checkpoint.json'',
        WriteFile ''videos/T/.checkpoint.json'']"
  by (simp add: run_defs paths_T tools_env_def bare_env_def finished_world_def
      finished_checkpoint_def example_segments_def)

text \<open>C2. If Whisper is unavailable or the recogniser raises, \<^verbatim>\<open>transcribe_audio\<close>
  returns \<^verbatim>\<open>None\<close>, for every audio file, model and file system. In a run that has come
  through the download and step 2 and that calls \<^verbatim>\<open>transcribe_audio\<close> (there is no saved
  transcription that is flagged and can be loaded), \<^verbatim>\<open>main\<close> then writes no summary file,
  leaves the entry \<^verbatim>\<open>transcribed\<close> of the checkpoint as it was loaded, sets
  \<^verbatim>\<open>completed\<close> to true, saves the checkpoint and ends with status 0. After step 2 the
  only calls are that of the recogniser, if Whisper is available, and the last write of
  the checkpoint.\<close>

theorem transcription_failure_degraded:
  assumes dl: "download_video en url ''downloads'' w0 = (Inr (audio_file, title), w1)"
    and ld: "load_checkpoint w1 (video_folder_of title) = JObj loaded"
    and s2: "step2_remove_silence en audio_file title (mark_downloaded url title loaded)
               (save_checkpoint en (video_folder_of title)
                  (JObj (mark_downloaded url title loaded)) w1) = (Inr checkpoint2, w2)"
    and called: "\<not> path_exists w2 (transcription_file_of title)
           \<or> \<not> truthy (dict_get checkpoint2 ''transcribed'' (JBool False))
           \<or> isl (load_transcription w2 (transcription_file_of title))"
    and fails: "\<not> WHISPER_AVAILABLE en
           \<or> isl (recognise en (files w2) (processed_audio_of title) ''base'')"
  shows "let final = dict_set ''completed'' (JBool True) checkpoint2;
             w_end = snd (main_body en url w0)
         in (\<forall>a m w. \<not> WHISPER_AVAILABLE en \<or> isl (recognise en (files w) a m) \<longrightarrow>
                fst (transcribe_audio en a m w) = JNull)
          \<and> fst (step3_transcribe en title checkpoint2 w2) = JNull
          \<and> fst (main_body en url w0) = Inr final
          \<and> fst (main en [prog, url] w0) = 0
          \<and> map_of final ''completed'' = Some (JBool True)
          \<and> map_of final ''transcribed'' = map_of loaded ''transcribed''
          \<and> files w_end (summary_file_of title) = files w2 (summary_file_of title)
          \<and> calls w_end =
              calls w2
              @ (if WHISPER_AVAILABLE en then [Transcribe (processed_audio_of title)] else [])
              @ [WriteFile (checkpoint_path (video_folder_of title))]
          \<and> (can_write en (checkpoint_path (video_folder_of title)) \<longrightarrow>
               files w_end (checkpoint_path (video_folder_of title)) = Some (JsonDoc (JObj final)))"
proof -
  let ?final = "dict_set ''completed'' (JBool True) checkpoint2"
  let ?w3 = "if WHISPER_AVAILABLE en then log_call (Transcribe (processed_audio_of title)) w2 else w2"
  have t: "transcribe_audio en (processed_audio_of title) ''base'' w2 = (JNull, ?w3)"
    using fails by (rule transcribe_audio_fails)
  have s3: "step3_transcribe en title checkpoint2 w2 = (JNull, ?w3)"
    using step3_calls_transcribe_audio[OF called] t by simp
  have s4: "step4_summary en title JNull checkpoint2 ?w3 = (Inr checkpoint2, ?w3)"
    by (simp add: step4_summary_def)
  have body: "main_body en url w0 =
      (Inr ?final, save_checkpoint en (video_folder_of title) (JObj ?final) ?w3)"
    by (simp add: main_body_def dl after_download_def ld Let_def s2 s3 s4)
  have "map_of checkpoint2 ''transcribed'' = map_of (mark_downloaded url title loaded) ''transcribed''"
    by (rule step2_keeps_entries[OF s2]) simp
  then have tr: "map_of checkpoint2 ''transcribed'' = map_of loaded ''transcribed''"
    by (simp add: mark_downloaded_transcribed)
  have none: "fst (transcribe_audio en a m w) = JNull"
    if "\<not> WHISPER_AVAILABLE en \<or> isl (recognise en (files w) a m)" for a m w
    using transcribe_audio_fails[OF that] by simp
  show ?thesis
    unfolding Let_def body
    by (simp add: none s3 main_def body tr map_of_dict_set files_save_checkpoint
        calls_save_checkpoint summary_file_not_checkpoint log_call_def)
qed

text \<open>The theorem of C2 for a first run on an empty file system, without Whisper and with
  a recogniser that raises.\<close>

theorem transcription_failure_degraded_witness:
  "\<not> WHISPER_AVAILABLE bare_env
   \<and> fst (main_body bare_env ''https://example.org/v'' empty_world) =
       Inr [(''downloaded'', JBool True), (''url'', JStr ''https://example.org/v''),
            (''title'', JStr ''T''), (''silence_removed'', JBool True),
            (''completed'', JBool True)]
   \<and> fst (main bare_env [''process_video.py'', ''https://example.org/v''] empty_world) = 0
   \<and> files (snd (main_body bare_env ''https://example.org/v'' empty_world))
        ''videos/T/summaries/T_summary.md'' = None
   \<and> WHISPER_AVAILABLE deaf_env
   \<and> (\<forall>fs p m. isl (recognise deaf_env fs p m))
   \<and> fst (main_body deaf_env ''https://example.org/v'' empty_world) =
       Inr [(''downloaded'', JBool True), (''url'', JStr ''https://example.org/v''),
            (''title'', JStr ''T''), (''silence_removed'', JBool True),
            (''completed'', JBool True)]
   \<and> fst (main deaf_env [''process_video.py'', ''https://example.org/v''] empty_world) = 0
   \<and> files (snd (main_body deaf_env ''https://example.org/v'' empty_world))
        ''videos/T/summaries/T_summary.md'' = None"
proof -
  let ?url = "''https://example.org/v''"
  let ?cp2 = "[(''downloaded'', JBool True), (''url'', JStr ?url), (''title'', JStr ''T''),
               (''silence_removed'', JBool True)]"
  have run: "fst (main_body en ?url empty_world) = Inr (dict_set ''completed'' (JBool True) ?cp2)
      \<and> fst (main en [''process_video.py'', ?url] empty_world) = 0
      \<and> files (snd (main_body en ?url empty_world)) ''videos/T/summaries/T_summary.md'' = None"
    if tools: "\<not> PYDUB_AVAILABLE en" "can_write en = (\<lambda>p. True)"
        "extract_info en = extract_info bare_env"
        "ffmpeg_run en = (\<lambda>fs p out m t. Inl FileNotFoundError)"
      and fails: "\<not> WHISPER_AVAILABLE en \<or> (\<forall>fs p m. isl (recognise en fs p m))" for en
  proof -
    define w1 where "w1 = snd (download_video en ?url ''downloads'' empty_world)"
    define w2 where "w2 = snd (step2_remove_silence en ''downloads/T.mp3'' ''T''
        (mark_downloaded ?url ''T'' [])
        (save_checkpoint en (video_folder_of ''T'') (JObj (mark_downloaded ?url ''T'' [])) w1))"
    have dl: "download_video en ?url ''downloads'' empty_world =
        (Inr (''downloads/T.mp3'', ''T''), w1)"
      unfolding w1_def
      by (simp add: download_video_def splitext_root_def path_exists_def log_call_def tools
          bare_env_def empty_world_def)
    have fs1: "files w1 = [''downloads/T.mp3'' \<mapsto> Raw ''mp3'']"
      unfolding w1_def
      by (simp add: download_video_def splitext_root_def path_exists_def log_call_def tools
          bare_env_def empty_world_def)
    have ld: "load_checkpoint w1 (video_folder_of ''T'') = JObj []"
      by (simp add: load_checkpoint_def path_exists_def paths_T fs1)
    have s2: "step2_remove_silence en ''downloads/T.mp3'' ''T'' (mark_downloaded ?url ''T'' [])
        (save_checkpoint en (video_folder_of ''T'') (JObj (mark_downloaded ?url ''T'' [])) w1) =
        (Inr ?cp2, w2)"
      unfolding w2_def
      by (simp add: step2_remove_silence_def remove_silence_def copy2_def path_exists_def
          files_save_checkpoint paths_T fs1 tools log_call_def mark_downloaded_def Let_def)
    have fs2: "files w2 ''videos/T/transcriptions/T_transcription.json'' = None"
      "files w2 ''videos/T/summaries/T_summary.md'' = None"
      unfolding w2_def
      by (simp_all add: step2_remove_silence_def remove_silence_def copy2_def path_exists_def
          files_save_checkpoint paths_T fs1 tools log_call_def mark_downloaded_def Let_def)
    have called: "\<not> path_exists w2 (transcription_file_of ''T'')
        \<or> \<not> truthy (dict_get ?cp2 ''transcribed'' (JBool False))
        \<or> isl (load_transcription w2 (transcription_file_of ''T''))"
      by (simp add: path_exists_def paths_T fs2)
    have fails': "\<not> WHISPER_AVAILABLE en
        \<or> isl (recognise en (files w2) (processed_audio_of ''T'') ''base'')"
      using fails by auto
    from transcription_failure_degraded [OF dl ld s2 called fails', of "''process_video.py''"] fs2
    show ?thesis by (simp add: Let_def paths_T)
  qed
  have "isl (recognise deaf_env fs p m)" for fs p m
    by (simp add: recognise_def deaf_env_def bare_env_def)
  with run[of bare_env] run[of deaf_env] show ?thesis
    by (simp add: bare_env_def deaf_env_def)
qed

text \<open>C3. The claim is that the highlights of a report are labelled 1, 2, 3, ... in the
  order of emission. On the three segments of the specification's grouping example the
  source emits two highlights and labels them 0 and 2: a window closed in the loop gets
  the counter before its increment, the last window gets the counter plus one.\<close>

theorem highlight_labels_example:
  "generate_summary (JArr example_segments) ''T'' =
     Inr (concat
       [''# Video Summary: T\<newline>\<newline>'',
        ''**Total Duration:** 00:01:35\<newline>'',
        ''**Total Segments:** 3\<newline>\<newline>'',
        ''## '' @ icon_highlights @ '' Key Highlights\<newline>\<newline>'',
        ''### [00:00 - 00:20] Highlight 0\<newline>\<newline>'',
        ''a b\<newline>\<newline>'',
        ''### [01:30 - 01:35] Highlight 2\<newline>\<newline>'',
        ''c\<newline>\<newline>'',
        ''---\<newline>\<newline>'',
        ''## '' @ icon_transcription @ '' Full Transcription\<newline>\<newline>'',
        ''**[00:00]** a\<newline>\<newline>'',
        ''**[00:15]** b\<newline>\<newline>'',
        ''**[01:30]** c\<newline>\<newline>''])"
  by code_simp

text \<open>C4. With the interval of 60 seconds, the three segments (0, 10, a), (15, 20, b),
  (90, 95, c) yield exactly two highlights, the first from 0 to 20 with the text
  \<^verbatim>\<open>a b\<close>, the second from 90 to 95 with the text \<^verbatim>\<open>c\<close>. In general, on every
  non-empty list of well-formed segments the report holds exactly the highlights of the
  grouping rule of the specification: a new window opens exactly when a segment's start
  minus the end of the segment absorbed last exceeds 60 seconds, and the window still
  open is emitted after the loop. (The labels in the headings are those the source
  computes; they are the subject of C3.)\<close>

theorem highlight_grouping:
  assumes "segs \<noteq> []" and "map seg_view xs = map Some segs"
  shows "highlight_interval = 60
         \<and> generate_summary (JArr xs) title =
             Inr (report title segs (spec_highlights highlight_interval segs))
         \<and> spec_highlights highlight_interval [(0, 10, ''a''), (15, 20, ''b''), (90, 95, ''c'')] =
             [(0, 20, ''a b''), (90, 95, ''c'')]
         \<and> generate_summary (JArr example_segments) title =
             Inr (report title [(0, 10, ''a''), (15, 20, ''b''), (90, 95, ''c'')]
                    [(0, 20, ''a b''), (90, 95, ''c'')])"
proof -
  have ex: "map seg_view example_segments =
      map Some [(0, 10, ''a''), (15, 20, ''b''), (90, 95, ''c'')]"
    by (simp add: example_segments_def)
  have "spec_highlights highlight_interval [(0, 10, ''a''), (15, 20, ''b''), (90, 95, ''c'')] =
      [(0, 20, ''a b''), (90, 95, ''c'')]"
    by (simp add: spec_highlights_def highlight_interval_def)
  with generate_summary_refines [OF _ ex, of title] generate_summary_refines [OF assms, of title]
  show ?thesis by (simp add: highlight_interval_def)
qed

text \<open>The theorem of C4 for two segments that lie 61 seconds apart, given as dicts with
  their keys in another order.\<close>

theorem highlight_grouping_witness:
  "[(3, 10, ''x''), (71, 80, ''y'')] \<noteq> []
   \<and> map seg_view
        [JObj [(''text'', JStr ''x''), (''start'', JNum 3), (''end'', JNum 10)],
         JObj [(''text'', JStr ''y''), (''start'', JNum 71), (''end'', JNum 80)]] =
       map Some [(3, 10, ''x''), (71, 80, ''y'')]
   \<and> generate_summary
        (JArr [JObj [(''text'', JStr ''x''), (''start'', JNum 3), (''end'', JNum 10)],
               JObj [(''text'', JStr ''y''), (''start'', JNum 71), (''end'', JNum 80)]]) ''T'' =
       Inr (report ''T'' [(3, 10, ''x''), (71, 80, ''y'')] [(3, 10, ''x''), (71, 80, ''y'')])"
  using highlight_grouping
    [of "[(3, 10, ''x''), (71, 80, ''y'')]"
        "[JObj [(''text'', JStr ''x''), (''start'', JNum 3), (''end'', JNum 10)],
          JObj [(''text'', JStr ''y''), (''start'', JNum 71), (''end'', JNum 80)]]" "''T''"]
  by (simp add: spec_highlights_def)

text \<open>C5 as stated, that \<^verbatim>\<open>load_checkpoint\<close> after \<^verbatim>\<open>save_checkpoint\<close> returns the saved
  record for every record and every folder, fails where the checkpoint file cannot be
  written: \<^verbatim>\<open>save_checkpoint\<close> swallows the error of the write, and the load finds no
  file.\<close>

theorem unwritable_checkpoint_is_lost:
  "load_checkpoint
     (save_checkpoint (bare_env\<lparr>can_write := (\<lambda>p. False)\<rparr>) ''videos/T''
        (JObj [(''downloaded'', JBool True)]) empty_world)
     ''videos/T'' \<noteq> JObj [(''downloaded'', JBool True)]"
  by (simp add: load_checkpoint_def save_checkpoint_def write_file_def log_call_def
      path_exists_def bare_env_def empty_world_def)

text \<open>C5, amended. Whenever the checkpoint file of the folder can be written,
  \<^verbatim>\<open>load_checkpoint\<close> after \<^verbatim>\<open>save_checkpoint\<close> returns a record equal to the saved
  one.\<close>

theorem checkpoint_roundtrip:
  assumes "can_write en (checkpoint_path folder)"
  shows "load_checkpoint (save_checkpoint en folder c w) folder = c"
  using assms
  by (simp add: load_checkpoint_def save_checkpoint_def write_file_def log_call_def
      path_exists_def read_json_def Let_def)

text \<open>The theorem of C5 for the checkpoint of a finished source, saved into an empty file
  system.\<close>

theorem checkpoint_roundtrip_witness:
  "can_write bare_env (checkpoint_path ''videos/T'')
   \<and> load_checkpoint (save_checkpoint bare_env ''videos/T'' (JObj finished_checkpoint) empty_world)
        ''videos/T'' = JObj finished_checkpoint"
  using checkpoint_roundtrip [of bare_env "''videos/T''" "JObj finished_checkpoint" empty_world]
  by (simp add: bare_env_def)

text \<open>C6. The claim is that \<^verbatim>\<open>remove_silence\<close> never raises, always produces an output
  file and returns its path, so that the stage never fails and its flag is always set.
  Without pydub the function does fall back as claimed, from ffmpeg to a copy of the
  input (lemmas \<open>remove_silence_ffmpeg\<close>, \<open>remove_silence_copies\<close>), and step 2 sets the
  flag whenever the function returns (lemma \<open>step2_sets_flag\<close>). With pydub installed
  there is no fallback: when pydub cannot load the input, the error leaves
  \<^verbatim>\<open>remove_silence\<close>, no output file is written, and the run ends with status 1.\<close>

theorem remove_silence_pydub_raises:
  "fst (remove_silence (bare_env\<lparr>PYDUB_AVAILABLE := True\<rparr>) ''downloads/T.mp3''
          ''videos/T/audio/T_processed_audio.mp3'' 1000 (- 40) 200
          (empty_world\<lparr>files := [''downloads/T.mp3'' \<mapsto> Raw ''mp3'']\<rparr>)) = Inl FileNotFoundError
   \<and> files (snd (remove_silence (bare_env\<lparr>PYDUB_AVAILABLE := True\<rparr>) ''downloads/T.mp3''
          ''videos/T/audio/T_processed_audio.mp3'' 1000 (- 40) 200
          (empty_world\<lparr>files := [''downloads/T.mp3'' \<mapsto> Raw ''mp3'']\<rparr>)))
        ''videos/T/audio/T_processed_audio.mp3'' = None
   \<and> fst (main (bare_env\<lparr>PYDUB_AVAILABLE := True\<rparr>)
            [''process_video.py'', ''https://example.org/v''] empty_world) = 1
   \<and> files (snd (main (bare_env\<lparr>PYDUB_AVAILABLE := True\<rparr>)
            [''process_video.py'', ''https://example.org/v''] empty_world))
        ''videos/T/.checkpoint.json'' =
       Some (JsonDoc (JObj [(''downloaded'', JBool True),
                            (''url'', JStr ''https://example.org/v''),
                            (''title'', JStr ''T'')]))"
  by (simp add: run_defs paths_T bare_env_def empty_world_def)

text \<open>C7. The claim is that every malformed non-empty segment list yields a minimal
  placeholder document instead of an error. The source returns that placeholder only
  when the last segment has no \<^verbatim>\<open>end\<close> (lemma \<open>generate_summary_guard\<close>). A segment that
  lacks \<^verbatim>\<open>start\<close> raises \<^verbatim>\<open>KeyError\<close> in the loop, and a run that loads such a
  transcription ends with status 1.\<close>

theorem generate_summary_missing_start:
  "generate_summary (JArr [JObj [(''end'', JNum 5), (''text'', JStr ''a'')]]) ''T'' = Inl KeyError
   \<and> load_transcription malformed_world (transcription_file_of ''T'') =
       Inr (JArr [JObj [(''end'', JNum 5), (''text'', JStr ''a'')]])
   \<and> fst (main tools_env [''process_video.py'', ''https://example.org/v''] malformed_world) = 1
   \<and> files (snd (main tools_env [''process_video.py'', ''https://example.org/v''] malformed_world))
        (summary_file_of ''T'') = None"
proof -
  have "generate_summary (JArr [JObj [(''end'', JNum 5), (''text'', JStr ''a'')]]) ''T'' =
      Inl KeyError"
    by code_simp
  then show ?thesis
    by (simp add: run_defs paths_T tools_env_def bare_env_def malformed_world_def)
qed

text \<open>C8. \<^verbatim>\<open>load_checkpoint\<close> returns the empty dict, and raises nothing, whenever the
  checkpoint file of the folder is absent or holds contents that cannot be parsed.\<close>

theorem load_checkpoint_absent_or_corrupt:
  assumes "files w (checkpoint_path folder) = None
           \<or> (\<exists>s. files w (checkpoint_path folder) = Some (Raw s))"
  shows "load_checkpoint w folder = JObj []"
  using assms by (auto simp: load_checkpoint_def path_exists_def read_json_def)

text \<open>The theorem of C8 at a folder without a checkpoint file and at a folder whose
  checkpoint file is damaged.\<close>

theorem load_checkpoint_absent_or_corrupt_witness:
  "files empty_world (checkpoint_path ''videos/T'') = None
   \<and> load_checkpoint empty_world ''videos/T'' = JObj []
   \<and> files (empty_world\<lparr>files := [''videos/T/.checkpoint.json'' \<mapsto> Raw ''{broken'']\<rparr>)
        (checkpoint_path ''videos/T'') = Some (Raw ''{broken'')
   \<and> load_checkpoint (empty_world\<lparr>files := [''videos/T/.checkpoint.json'' \<mapsto> Raw ''{broken'']\<rparr>)
        ''videos/T'' = JObj []"
  using load_checkpoint_absent_or_corrupt [of empty_world "''videos/T''"]
    load_checkpoint_absent_or_corrupt
      [of "empty_world\<lparr>files := [''videos/T/.checkpoint.json'' \<mapsto> Raw ''{broken'']\<rparr>" "''videos/T''"]
  by (simp add: empty_world_def checkpoint_path_def path_join_def)

text \<open>C9. Given an empty segment list, \<^verbatim>\<open>generate_summary\<close> returns a short placeholder
  document, the title header followed by a notice that no transcription is available,
  and raises nothing.\<close>

theorem generate_summary_empty:
  "generate_summary (JArr []) title =
     Inr (''# Video Summary: '' @ title @ ''\<newline>\<newline>No transcription available.'')"
  by (simp add: generate_summary_def)

text \<open>C10. The claim is that the result has at most 200 characters, none of the invalid
  characters, no whitespace and no leading or trailing dot or space. The first three
  parts and the leading part hold for every title (lemmas above). The trailing part
  fails: the cut to 200 characters comes after the strip, so a title of 199 letters
  followed by \<^verbatim>\<open>.b\<close> is cut to a name that ends in a dot.\<close>

theorem sanitize_filename_trailing_dot:
  "sanitize_filename (replicate 199 (CHR ''a'') @ ''.b'') = replicate 199 (CHR ''a'') @ ''.''"
  by code_simp

end
